theory Spec2Isabelle
  imports Main "HOL-Library.Signed_Division"
begin

section \<open>Notebook cell status bar: execution state and execution timer\<close>

text \<open>
  A shallow embedding of \<^verbatim>\<open>executionStatusBarItemController.ts\<close>. Time stamps and
  durations are JavaScript numbers holding whole milliseconds (\<^verbatim>\<open>Date.now()\<close> and the
  differences of such values); they are modelled as \<^typ>\<open>int\<close>. \<^verbatim>\<open>Date.now()\<close> is an
  argument \<open>now\<close> of every function that reads the clock.
\<close>

subsection \<open>Numbers in template strings\<close>

text \<open>
  \<^verbatim>\<open>`${n}`\<close> of a whole number is its decimal numeral, with a leading minus sign for a
  negative one.
\<close>

definition digit_char :: "nat \<Rightarrow> char" where
  "digit_char n = ''0123456789'' ! n"

fun string_of_nat :: "nat \<Rightarrow> string" where
  "string_of_nat n =
     (if n < 10 then [digit_char n] else string_of_nat (n div 10) @ [digit_char (n mod 10)])"

declare string_of_nat.simps [simp del]

definition Number_toString :: "int \<Rightarrow> string" where
  "Number_toString i =
     (if i < 0 then ''-'' @ string_of_nat (nat (- i)) else string_of_nat (nat i))"

subsection \<open>formatCellDuration\<close>

text \<open>
  \<^verbatim>\<open>showMilliseconds: boolean = true\<close>: an omitted argument is \<open>None\<close> and takes the
  default. \<^verbatim>\<open>Math.floor(a / b)\<close> on whole numbers is \<open>div\<close>; JavaScript's \<^verbatim>\<open>%\<close> takes
  the sign of the dividend, which is \<open>smod\<close>.
\<close>

definition formatCellDuration :: "int \<Rightarrow> bool option \<Rightarrow> string" where
  "formatCellDuration duration showMillisecondsArg =
     (let showMilliseconds = (case showMillisecondsArg of None \<Rightarrow> True | Some b \<Rightarrow> b) in
      if showMilliseconds \<and> duration < 1000 then Number_toString duration @ ''ms''
      else
        let minutes = duration div 1000 div 60;
            seconds = (duration div 1000) smod 60;
            tenths = (duration smod 1000) div 100
        in if minutes > 0
           then Number_toString minutes @ ''m '' @ Number_toString seconds @ ''.''
                  @ Number_toString tenths @ ''s''
           else Number_toString seconds @ ''.'' @ Number_toString tenths @ ''s'')"

subsection \<open>Data model\<close>

text \<open>
  Modelled from the spec: the enumeration \<^verbatim>\<open>NotebookCellExecutionState\<close> is declared in
  \<^verbatim>\<open>notebookCommon\<close>, outside this file. A run-state object carries one of Unconfirmed,
  Pending and Executing; the spec's state "None" is the absence of a run-state object, so
  \<^verbatim>\<open>runState?.state\<close> is \<open>None\<close> exactly when there is no run state and \<^verbatim>\<open>!state\<close> tests
  that.
\<close>

datatype NotebookCellExecutionState = Unconfirmed | Pending | Executing

record INotebookCellExecution =
  state :: NotebookCellExecutionState
  didPause :: bool

text \<open>
  The fields of \<^verbatim>\<open>NotebookCellInternalMetadata\<close> that this file reads; each may be
  undefined. \<^verbatim>\<open>renderDuration\<close> is an object from renderer ids to milliseconds, kept as
  the list of its entries in the order \<^verbatim>\<open>for (const key in renderDuration)\<close> visits
  them.
\<close>

record NotebookCellInternalMetadata =
  lastRunSuccess :: "bool option"
  runStartTime :: "int option"
  runStartTimeAdjustment :: "int option"
  runEndTime :: "int option"
  renderDuration :: "(string \<times> int) list option"

text \<open>
  The icons and theme colours are constants of \<^verbatim>\<open>notebookIcons\<close> and
  \<^verbatim>\<open>notebookEditorWidget\<close>, outside this file: they are kept symbolic, and
  \<^verbatim>\<open>ThemeIcon.modify(icon, 'spin')\<close> is the constructor \<open>ThemeIcon_modify\<close>. An item's
  text is either \<^verbatim>\<open>`$(${icon.id})`\<close> for such an icon, or a plain string.
\<close>

datatype ThemeIcon =
  successStateIcon | errorStateIcon | pendingStateIcon | executingStateIcon
  | ThemeIcon_modify ThemeIcon string

datatype ThemeColor = cellStatusIconSuccess | cellStatusIconError

datatype ItemText = IconText ThemeIcon | PlainText string

datatype Tooltip = PlainTooltip string | MarkdownString (mdValue: string) (isTrusted: bool)

datatype CellStatusbarAlignment = Left | Right

record INotebookCellStatusBarItem =
  itemText :: ItemText
  color :: "ThemeColor option"
  tooltip :: "Tooltip option"
  alignment :: CellStatusbarAlignment
  priority :: int

definition MAX_SAFE_INTEGER :: int where
  "MAX_SAFE_INTEGER = 2 ^ 53 - 1"

subsection \<open>The status-item store and the timers\<close>

text \<open>
  Modelled from the spec: \<^verbatim>\<open>deltaCellStatusBarItems\<close> belongs to the view model, outside
  this file. The spec gives it as \<^verbatim>\<open>deltaStatusItems(previousHandles, [{cellHandle,
  items}]) -> newHandles\<close>, an atomic replacement identified by the returned tokens: the
  items registered under the previous tokens are removed, the new items are attached to
  the cell under fresh tokens, which are returned. \<open>pushes\<close> records every call, in order.
\<close>

record StatusBarStore =
  attached :: "(nat \<times> nat \<times> INotebookCellStatusBarItem) list"
  nextId :: nat
  pushes :: "(nat \<times> INotebookCellStatusBarItem list) list"

definition deltaCellStatusBarItems ::
  "nat list \<Rightarrow> nat \<Rightarrow> INotebookCellStatusBarItem list \<Rightarrow> StatusBarStore
     \<Rightarrow> nat list \<times> StatusBarStore" where
  "deltaCellStatusBarItems oldIds handle items store =
     (let newIds = [nextId store ..< nextId store + length items]
      in (newIds,
          store\<lparr>attached := filter (\<lambda>e. fst e \<notin> set oldIds) (attached store)
                               @ zip newIds (map (Pair handle) items),
                nextId := nextId store + length items,
                pushes := pushes store @ [(handle, items)]\<rparr>))"

text \<open>
  Modelled from the spec: \<^verbatim>\<open>disposableTimeout\<close>, \<^verbatim>\<open>MutableDisposable\<close> and
  \<^verbatim>\<open>RunOnceScheduler\<close> are scheduling primitives outside this file, "schedule callback
  after duration, cancelable". A pending timeout is the time at which it falls due; it
  runs its callback once, at that time or later, unless it is cancelled first.
\<close>

definition disposableTimeout :: "int \<Rightarrow> int \<Rightarrow> int" where
  "disposableTimeout now timeout = now + timeout"

text \<open>
  What both indicator classes hold: the cell they were constructed for, the tokens of the
  items they last attached, and whether \<^verbatim>\<open>dispose()\<close> has run (which unregisters their
  listeners).
\<close>

record CellStatusBarItem =
  cellHandle :: nat
  currentItemIds :: "nat list"
  isDisposed :: bool

subsection \<open>ExecutionStateCellStatusBarItem\<close>

definition MIN_SPINNER_TIME :: int where
  "MIN_SPINNER_TIME = 500"

text \<open>
  \<open>clearExecutingStateTimer\<close> is the \<^verbatim>\<open>value\<close> of the \<^verbatim>\<open>MutableDisposable\<close>: the due time
  of the pending timeout, or \<open>None\<close>.
\<close>

record ExecutionStateCellStatusBarItem = CellStatusBarItem +
  showedExecutingStateTime :: "int option"
  clearExecutingStateTimer :: "int option"

definition getItemForState ::
  "INotebookCellExecution option \<Rightarrow> NotebookCellInternalMetadata
     \<Rightarrow> INotebookCellStatusBarItem list" where
  "getItemForState runState internalMetadata =
     (let state = map_option state runState in
      if state = None \<and> lastRunSuccess internalMetadata = Some True then
        [\<lparr>itemText = IconText successStateIcon, color = Some cellStatusIconSuccess,
          tooltip = Some (PlainTooltip ''Success''), alignment = Left,
          priority = MAX_SAFE_INTEGER\<rparr>]
      else if state = None \<and> lastRunSuccess internalMetadata = Some False then
        [\<lparr>itemText = IconText errorStateIcon, color = Some cellStatusIconError,
          tooltip = Some (PlainTooltip ''Failed''), alignment = Left,
          priority = MAX_SAFE_INTEGER\<rparr>]
      else if state = Some Pending \<or> state = Some Unconfirmed then
        [\<lparr>itemText = IconText pendingStateIcon, color = None,
          tooltip = Some (PlainTooltip ''Pending''), alignment = Left,
          priority = MAX_SAFE_INTEGER\<rparr>]
      else if state = Some Executing then
        (let icon = (if map_option didPause runState = Some True then executingStateIcon
                     else ThemeIcon_modify executingStateIcon ''spin'')
         in [\<lparr>itemText = IconText icon, color = None,
               tooltip = Some (PlainTooltip ''Executing''), alignment = Left,
               priority = MAX_SAFE_INTEGER\<rparr>])
      else [])"

text \<open>
  \<^verbatim>\<open>_getItemsForCell\<close>: \<open>None\<close> is the source's \<^verbatim>\<open>undefined\<close>, "no change". The run state and
  the metadata are what the services return when the method runs.
\<close>

definition getItemsForCell ::
  "int \<Rightarrow> INotebookCellExecution option \<Rightarrow> NotebookCellInternalMetadata
     \<Rightarrow> ExecutionStateCellStatusBarItem
     \<Rightarrow> INotebookCellStatusBarItem list option \<times> ExecutionStateCellStatusBarItem" where
  "getItemsForCell now runState internalMetadata this =
     (let executing = (map_option state runState = Some Executing) in
      case showedExecutingStateTime this of
        None \<Rightarrow>
          (Some (getItemForState runState internalMetadata),
           if executing then this\<lparr>showedExecutingStateTime := Some now\<rparr> else this)
      | Some showed \<Rightarrow>
          if executing then (Some (getItemForState runState internalMetadata), this)
          else
            (let timeUntilMin = MIN_SPINNER_TIME - (now - showed) in
             if timeUntilMin > 0 then
               (None,
                if clearExecutingStateTimer this = None
                then this\<lparr>clearExecutingStateTimer :=
                            Some (disposableTimeout now timeUntilMin)\<rparr>
                else this)
             else
               (Some (getItemForState runState internalMetadata),
                this\<lparr>showedExecutingStateTime := None\<rparr>)))"

definition ExecutionState_update ::
  "int \<Rightarrow> INotebookCellExecution option \<Rightarrow> NotebookCellInternalMetadata
     \<Rightarrow> ExecutionStateCellStatusBarItem \<times> StatusBarStore
     \<Rightarrow> ExecutionStateCellStatusBarItem \<times> StatusBarStore" where
  "ExecutionState_update now runState internalMetadata s =
     (case getItemsForCell now runState internalMetadata (fst s) of
        (None, this) \<Rightarrow> (this, snd s)
      | (Some items, this) \<Rightarrow>
          (let (ids, store) =
                 deltaCellStatusBarItems (currentItemIds this) (cellHandle this) items (snd s)
           in (this\<lparr>currentItemIds := ids\<rparr>, store)))"

text \<open>The callback handed to \<^verbatim>\<open>disposableTimeout\<close> in \<^verbatim>\<open>_getItemsForCell\<close>.\<close>

definition clearExecutingStateTimer_callback ::
  "int \<Rightarrow> INotebookCellExecution option \<Rightarrow> NotebookCellInternalMetadata
     \<Rightarrow> ExecutionStateCellStatusBarItem \<times> StatusBarStore
     \<Rightarrow> ExecutionStateCellStatusBarItem \<times> StatusBarStore" where
  "clearExecutingStateTimer_callback now runState internalMetadata s =
     ExecutionState_update now runState internalMetadata
       ((fst s)\<lparr>showedExecutingStateTime := None, clearExecutingStateTimer := None\<rparr>, snd s)"

text \<open>
  The constructor runs \<^verbatim>\<open>_update()\<close> once and registers the listeners. \<^verbatim>\<open>dispose()\<close>
  releases what was registered (the listeners and the \<^verbatim>\<open>MutableDisposable\<close>, which
  cancels its timeout), then replaces the attached items with the empty list; the tokens
  this call returns are not stored.
\<close>

definition ExecutionState_new ::
  "nat \<Rightarrow> int \<Rightarrow> INotebookCellExecution option \<Rightarrow> NotebookCellInternalMetadata
     \<Rightarrow> StatusBarStore \<Rightarrow> ExecutionStateCellStatusBarItem \<times> StatusBarStore" where
  "ExecutionState_new handle now runState internalMetadata store =
     ExecutionState_update now runState internalMetadata
       (\<lparr>cellHandle = handle, currentItemIds = [], isDisposed = False,
         showedExecutingStateTime = None, clearExecutingStateTimer = None\<rparr>, store)"

definition ExecutionState_dispose ::
  "ExecutionStateCellStatusBarItem \<times> StatusBarStore
     \<Rightarrow> ExecutionStateCellStatusBarItem \<times> StatusBarStore" where
  "ExecutionState_dispose s =
     (let this = (fst s)\<lparr>isDisposed := True, clearExecutingStateTimer := None\<rparr>
      in (this,
          snd (deltaCellStatusBarItems (currentItemIds this) (cellHandle this) [] (snd s))))"

text \<open>
  What can happen to a session: a notification that reaches \<^verbatim>\<open>_update()\<close> (an execution
  change of this cell, or a metadata change), the clear-timer falling due, and disposal.
  Each carries the clock and what the services return at that moment. A disposed session
  has no listeners left and its timeout is cancelled; a timeout never runs before it is
  due.
\<close>

datatype ExecutionStateEvent =
  Notified int "INotebookCellExecution option" NotebookCellInternalMetadata
  | ClearTimerDue int "INotebookCellExecution option" NotebookCellInternalMetadata
  | Dispose

fun ExecutionState_step ::
  "ExecutionStateCellStatusBarItem \<times> StatusBarStore \<Rightarrow> ExecutionStateEvent
     \<Rightarrow> ExecutionStateCellStatusBarItem \<times> StatusBarStore" where
  "ExecutionState_step s (Notified now rs md) =
     (if isDisposed (fst s) then s else ExecutionState_update now rs md s)"
| "ExecutionState_step s (ClearTimerDue now rs md) =
     (case clearExecutingStateTimer (fst s) of
        None \<Rightarrow> s
      | Some due \<Rightarrow> if due \<le> now then clearExecutingStateTimer_callback now rs md s else s)"
| "ExecutionState_step s Dispose = ExecutionState_dispose s"

definition ExecutionState_run ::
  "ExecutionStateCellStatusBarItem \<times> StatusBarStore \<Rightarrow> ExecutionStateEvent list
     \<Rightarrow> ExecutionStateCellStatusBarItem \<times> StatusBarStore" where
  "ExecutionState_run s evs = foldl ExecutionState_step s evs"

subsection \<open>TimerCellStatusBarItem\<close>

definition UPDATE_TIMER_GRACE_PERIOD :: int where
  "UPDATE_TIMER_GRACE_PERIOD = 200"

definition UPDATE_INTERVAL :: int where
  "UPDATE_INTERVAL = 100"

text \<open>
  What \<^verbatim>\<open>_getTimeItem\<close> takes from outside this file, as parameters: the renderer registry
  (\<^verbatim>\<open>getRendererInfo\<close>), \<^verbatim>\<open>new Date(t).toLocaleTimeString(language)\<close>, and
  \<^verbatim>\<open>encodeURIComponent(JSON.stringify({extensionId, issueBody}))\<close> as a function of the
  two fields. \<^verbatim>\<open>localize(key, message, args)\<close> is the message with its arguments filled in.
\<close>

record RendererInfo =
  extensionId :: string
  displayName :: string

record NotebookServices =
  getRendererInfo :: "string \<Rightarrow> RendererInfo option"
  toLocaleTimeString :: "int \<Rightarrow> string"
  encodeIssueArgs :: "string \<Rightarrow> string \<Rightarrow> string"

record RuntimeInformation =
  infoRenderDuration :: "(string \<times> int) list"
  infoExecutionDuration :: int
  infoTimerDuration :: int

text \<open>
  The handle \<^verbatim>\<open>_deferredUpdate\<close> refers to: a timeout with its due time, and whether it was
  disposed (cancelled). \<open>scheduler\<close> is the pending timeout of the \<^verbatim>\<open>RunOnceScheduler\<close>, if
  any.
\<close>

record DeferredTimeout =
  due :: int
  cancelled :: bool

record TimerCellStatusBarItem = CellStatusBarItem +
  scheduler :: "int option"
  deferredUpdate :: "DeferredTimeout option"
  isVerbose :: bool

text \<open>The body of the loop over the keys of \<^verbatim>\<open>renderDuration\<close>, in three pieces.\<close>

definition renderIssueLink :: "int \<Rightarrow> int \<Rightarrow> bool" where
  "renderIssueLink renderDurationOfKey executionDuration =
     ((renderDurationOfKey > 200 \<and> executionDuration < 2000) \<or> renderDurationOfKey > 1000)"

definition issueArgs :: "NotebookServices \<Rightarrow> int \<Rightarrow> string \<Rightarrow> int \<Rightarrow> string" where
  "issueArgs svc executionDuration key renderDurationOfKey =
     (let rendererInfo = getRendererInfo svc key in
      encodeIssueArgs svc
        (case rendererInfo of None \<Rightarrow> [] | Some r \<Rightarrow> extensionId r)
        (''Auto-generated text from notebook cell performance - Please add an explanation for the performance issue, including cell content if possible.\<newline>''
         @ ''The duration for the renderer, ''
         @ (case rendererInfo of None \<Rightarrow> key | Some r \<Rightarrow> displayName r)
         @ '', is slower than expected.\<newline>''
         @ ''Execution Time: '' @ formatCellDuration executionDuration None @ ''\<newline>''
         @ ''Renderer Duration: '' @ formatCellDuration renderDurationOfKey None
         @ ''\<newline>''))"

definition rendererTitle :: "NotebookServices \<Rightarrow> int \<Rightarrow> string \<Rightarrow> int \<Rightarrow> string" where
  "rendererTitle svc executionDuration key renderDurationOfKey =
     (let linkText = (case getRendererInfo svc key of None \<Rightarrow> key | Some r \<Rightarrow> displayName r)
      in if renderIssueLink renderDurationOfKey executionDuration
         then ''['' @ linkText @ ''](command:workbench.action.openIssueReporter?''
                @ issueArgs svc executionDuration key renderDurationOfKey @ '')''
         else ''**'' @ linkText @ ''**'')"

fun renderTimesLoop ::
  "NotebookServices \<Rightarrow> int \<Rightarrow> (string \<times> int) list \<Rightarrow> string \<Rightarrow> string" where
  "renderTimesLoop svc executionDuration [] renderTimes = renderTimes"
| "renderTimesLoop svc executionDuration ((key, d) # rest) renderTimes =
     renderTimesLoop svc executionDuration rest
       (renderTimes @ ''- '' @ rendererTitle svc executionDuration key d @ '' ''
          @ formatCellDuration d None @ ''\<newline>'')"

definition timerTooltip :: "string \<Rightarrow> string \<Rightarrow> string \<Rightarrow> string \<Rightarrow> string" where
  "timerTooltip lastExecution executionTime overheadTime renderTimes =
     ''**Last Execution** '' @ lastExecution @ ''\<newline>\<newline>**Execution Time** '' @ executionTime
       @ ''\<newline>\<newline>**Overhead Time** '' @ overheadTime
       @ ''\<newline>\<newline>**Render Times**\<newline>\<newline>'' @ renderTimes"

text \<open>
  \<^verbatim>\<open>_getTimeItem(startTime, endTime, adjustment = 0, runtimeInformation?)\<close>: an omitted or
  undefined \<open>adjustment\<close> is \<open>None\<close> and takes the default.
\<close>

definition getTimeItem ::
  "NotebookServices \<Rightarrow> bool \<Rightarrow> int \<Rightarrow> int \<Rightarrow> int option \<Rightarrow> RuntimeInformation option
     \<Rightarrow> INotebookCellStatusBarItem" where
  "getTimeItem svc verbose startTime endTime adjustmentArg runtimeInformation =
     (let adjustment = (case adjustmentArg of None \<Rightarrow> 0 | Some a \<Rightarrow> a);
          duration = endTime - startTime + adjustment;
          lastExecution = toLocaleTimeString svc endTime;
          tooltip =
            (case runtimeInformation of
               None \<Rightarrow> None
             | Some info \<Rightarrow>
                 (let renderTimes =
                        renderTimesLoop svc (infoExecutionDuration info)
                          (infoRenderDuration info) []
                        @ ''\<newline>*Use the links above to file an issue using the issue reporter.*\<newline>''
                  in Some (MarkdownString
                       (timerTooltip lastExecution
                          (formatCellDuration (infoExecutionDuration info) None)
                          (formatCellDuration
                             (infoTimerDuration info - infoExecutionDuration info) None)
                          renderTimes)
                       True)));
          executionText =
            (if verbose
             then ''Last Execution: '' @ lastExecution @ '', Duration: ''
                    @ formatCellDuration duration (Some False)
             else formatCellDuration duration (Some False))
      in \<lparr>itemText = PlainText executionText, color = None, tooltip = tooltip,
          alignment = Left, priority = MAX_SAFE_INTEGER - 5\<rparr>)"

text \<open>
  The first half of \<^verbatim>\<open>_update\<close> (up to \<^verbatim>\<open>const items\<close>): the timer item, if any, and
  whether \<^verbatim>\<open>this._scheduler.schedule()\<close> was called.
\<close>

definition timerItemForCell ::
  "NotebookServices \<Rightarrow> bool \<Rightarrow> int \<Rightarrow> INotebookCellExecution option
     \<Rightarrow> NotebookCellInternalMetadata \<Rightarrow> INotebookCellStatusBarItem option \<times> bool" where
  "timerItemForCell svc verbose now runState internalMetadata =
     (let state = map_option state runState;
          startTime = runStartTime internalMetadata;
          adjustment = (case runStartTimeAdjustment internalMetadata of
                          None \<Rightarrow> 0 | Some a \<Rightarrow> a);
          endTime = runEndTime internalMetadata
      in if map_option didPause runState = Some True then (None, False)
         else if state = Some Executing then
           (case startTime of
              Some start \<Rightarrow>
                (Some (getTimeItem svc verbose start now (Some adjustment) None), True)
            | None \<Rightarrow> (None, False))
         else if state = None then
           (case (startTime, endTime) of
              (Some start, Some end) \<Rightarrow>
                (let timerDuration = now - start + adjustment;
                     executionDuration = end - start;
                     renderDuration = (case renderDuration internalMetadata of
                                         None \<Rightarrow> [] | Some r \<Rightarrow> r)
                 in (Some (getTimeItem svc verbose start end None
                       (Some \<lparr>infoRenderDuration = renderDuration,
                              infoExecutionDuration = executionDuration,
                              infoTimerDuration = timerDuration\<rparr>)), False))
            | _ \<Rightarrow> (None, False))
         else (None, False))"

definition Timer_update ::
  "NotebookServices \<Rightarrow> int \<Rightarrow> INotebookCellExecution option \<Rightarrow> NotebookCellInternalMetadata
     \<Rightarrow> TimerCellStatusBarItem \<times> StatusBarStore
     \<Rightarrow> TimerCellStatusBarItem \<times> StatusBarStore" where
  "Timer_update svc now runState internalMetadata s =
     (let (timerItem, scheduled) =
            timerItemForCell svc (isVerbose (fst s)) now runState internalMetadata;
          this = (if scheduled then (fst s)\<lparr>scheduler := Some (now + UPDATE_INTERVAL)\<rparr>
                  else fst s);
          items = (case timerItem of None \<Rightarrow> [] | Some i \<Rightarrow> [i])
      in if items = [] \<and> runState \<noteq> None then
           (if deferredUpdate this = None
            then this\<lparr>deferredUpdate :=
                        Some \<lparr>due = disposableTimeout now UPDATE_TIMER_GRACE_PERIOD,
                              cancelled = False\<rparr>\<rparr>
            else this,
            snd s)
         else
           (let (ids, store) =
                  deltaCellStatusBarItems (currentItemIds this) (cellHandle this) items (snd s)
            in (this\<lparr>deferredUpdate := None, currentItemIds := ids\<rparr>, store)))"

text \<open>
  The callback of the grace-period timeout: the \<^verbatim>\<open>items\<close> it captured are the empty list,
  since it is only created when \<^verbatim>\<open>!items.length\<close>.
\<close>

definition deferredUpdate_callback ::
  "TimerCellStatusBarItem \<times> StatusBarStore \<Rightarrow> TimerCellStatusBarItem \<times> StatusBarStore" where
  "deferredUpdate_callback s =
     (let (ids, store) =
            deltaCellStatusBarItems (currentItemIds (fst s)) (cellHandle (fst s)) [] (snd s)
      in ((fst s)\<lparr>deferredUpdate := None, currentItemIds := ids\<rparr>, store))"

text \<open>The runner of the \<^verbatim>\<open>RunOnceScheduler\<close>: its timeout is spent, then \<^verbatim>\<open>_update()\<close>.\<close>

definition scheduler_callback ::
  "NotebookServices \<Rightarrow> int \<Rightarrow> INotebookCellExecution option \<Rightarrow> NotebookCellInternalMetadata
     \<Rightarrow> TimerCellStatusBarItem \<times> StatusBarStore
     \<Rightarrow> TimerCellStatusBarItem \<times> StatusBarStore" where
  "scheduler_callback svc now runState internalMetadata s =
     Timer_update svc now runState internalMetadata ((fst s)\<lparr>scheduler := None\<rparr>, snd s)"

definition Timer_new ::
  "NotebookServices \<Rightarrow> bool \<Rightarrow> nat \<Rightarrow> int \<Rightarrow> INotebookCellExecution option
     \<Rightarrow> NotebookCellInternalMetadata \<Rightarrow> StatusBarStore
     \<Rightarrow> TimerCellStatusBarItem \<times> StatusBarStore" where
  "Timer_new svc verbose handle now runState internalMetadata store =
     Timer_update svc now runState internalMetadata
       (\<lparr>cellHandle = handle, currentItemIds = [], isDisposed = False,
         scheduler = None, deferredUpdate = None, isVerbose = verbose\<rparr>, store)"

text \<open>
  \<^verbatim>\<open>dispose()\<close>: \<^verbatim>\<open>super.dispose()\<close> releases the store of the session (the scheduler, the
  listeners and the grace-period timeout registered there), \<^verbatim>\<open>_deferredUpdate?.dispose()\<close>
  cancels the timeout again, and the attached items are replaced with the empty list.
  The field \<^verbatim>\<open>_deferredUpdate\<close> keeps its handle.
\<close>

definition Timer_dispose ::
  "TimerCellStatusBarItem \<times> StatusBarStore \<Rightarrow> TimerCellStatusBarItem \<times> StatusBarStore" where
  "Timer_dispose s =
     (let this = (fst s)\<lparr>isDisposed := True, scheduler := None,
                         deferredUpdate :=
                           map_option (\<lambda>t. t\<lparr>cancelled := True\<rparr>) (deferredUpdate (fst s))\<rparr>
      in (this,
          snd (deltaCellStatusBarItems (currentItemIds this) (cellHandle this) [] (snd s))))"

text \<open>
  What can happen to a timer session: a metadata change, a change of the verbosity
  setting (with its new value), the scheduler or the grace-period timeout falling due,
  and disposal.
\<close>

datatype TimerEvent =
  MetadataChanged int "INotebookCellExecution option" NotebookCellInternalMetadata
  | ConfigurationChanged bool int "INotebookCellExecution option" NotebookCellInternalMetadata
  | SchedulerDue int "INotebookCellExecution option" NotebookCellInternalMetadata
  | DeferredUpdateDue int
  | DisposeTimer

fun Timer_step ::
  "NotebookServices \<Rightarrow> TimerCellStatusBarItem \<times> StatusBarStore \<Rightarrow> TimerEvent
     \<Rightarrow> TimerCellStatusBarItem \<times> StatusBarStore" where
  "Timer_step svc s (MetadataChanged now rs md) =
     (if isDisposed (fst s) then s else Timer_update svc now rs md s)"
| "Timer_step svc s (ConfigurationChanged verbose now rs md) =
     (if isDisposed (fst s) then s
      else Timer_update svc now rs md ((fst s)\<lparr>isVerbose := verbose\<rparr>, snd s))"
| "Timer_step svc s (SchedulerDue now rs md) =
     (case scheduler (fst s) of
        None \<Rightarrow> s
      | Some t \<Rightarrow> if t \<le> now then scheduler_callback svc now rs md s else s)"
| "Timer_step svc s (DeferredUpdateDue now) =
     (case deferredUpdate (fst s) of
        None \<Rightarrow> s
      | Some t \<Rightarrow> if \<not> cancelled t \<and> due t \<le> now then deferredUpdate_callback s else s)"
| "Timer_step svc s DisposeTimer = Timer_dispose s"

definition Timer_run ::
  "NotebookServices \<Rightarrow> TimerCellStatusBarItem \<times> StatusBarStore \<Rightarrow> TimerEvent list
     \<Rightarrow> TimerCellStatusBarItem \<times> StatusBarStore" where
  "Timer_run svc s evs = foldl (Timer_step svc) s evs"

subsection \<open>NotebookStatusBarController\<close>

text \<open>
  A cell is known to the controller by its handle. \<open>visibleCells\<close> is the
  \<^verbatim>\<open>Map<number, IDisposable>\<close> from handles to sessions. The sessions come from the
  \<^verbatim>\<open>_itemFactory\<close> the controller was given: the \<open>n\<close>-th call of the factory returns the
  session \<open>n\<close>, \<open>created\<close> counts the calls, and \<open>liveSessions\<close> maps every session that was
  constructed and not yet disposed to the handle of the cell it was constructed for.
\<close>

record ICellVisibilityChangeEvent =
  added :: "nat list"
  removed :: "nat list"

record NotebookStatusBarController =
  visibleCells :: "nat \<rightharpoonup> nat"
  created :: nat
  liveSessions :: "nat \<rightharpoonup> nat"

text \<open>The two loop bodies of \<^verbatim>\<open>_updateVisibleCells\<close>.\<close>

definition removeCell :: "nat \<Rightarrow> NotebookStatusBarController \<Rightarrow> NotebookStatusBarController" where
  "removeCell oldCell c =
     c\<lparr>liveSessions := (case visibleCells c oldCell of
                           None \<Rightarrow> liveSessions c
                         | Some session \<Rightarrow> (liveSessions c)(session := None)),
       visibleCells := (visibleCells c)(oldCell := None)\<rparr>"

definition addCell :: "nat \<Rightarrow> NotebookStatusBarController \<Rightarrow> NotebookStatusBarController" where
  "addCell newCell c =
     c\<lparr>visibleCells := (visibleCells c)(newCell \<mapsto> created c),
       liveSessions := (liveSessions c)(created c \<mapsto> newCell),
       created := Suc (created c)\<rparr>"

text \<open>
  \<^verbatim>\<open>_updateVisibleCells(e)\<close>; \<open>vm\<close> tells whether \<^verbatim>\<open>getViewModel()\<close> returns a view model.
\<close>

definition updateVisibleCells ::
  "bool \<Rightarrow> ICellVisibilityChangeEvent \<Rightarrow> NotebookStatusBarController
     \<Rightarrow> NotebookStatusBarController" where
  "updateVisibleCells vm e c =
     (if \<not> vm then c else fold addCell (added e) (fold removeCell (removed e) c))"

text \<open>
  The constructor starts from an empty map and calls \<^verbatim>\<open>_updateEverything\<close>, which
  disposes and clears what the map holds and adds the observer's visible cells.
\<close>

definition updateEverything ::
  "bool \<Rightarrow> nat list \<Rightarrow> NotebookStatusBarController \<Rightarrow> NotebookStatusBarController" where
  "updateEverything vm observerVisibleCells c =
     updateVisibleCells vm \<lparr>added = observerVisibleCells, removed = []\<rparr>
       (c\<lparr>liveSessions := (\<lambda>session. if session \<in> ran (visibleCells c) then None
                                      else liveSessions c session),
          visibleCells := Map.empty\<rparr>)"

definition Controller_new :: "bool \<Rightarrow> nat list \<Rightarrow> NotebookStatusBarController" where
  "Controller_new vm observerVisibleCells =
     updateEverything vm observerVisibleCells
       \<lparr>visibleCells = Map.empty, created = 0, liveSessions = Map.empty\<rparr>"

text \<open>
  Modelled from the spec: the \<^verbatim>\<open>NotebookVisibleCellObserver\<close> is outside this file. It
  "exposes the current visible-cell list and an event stream of {added, removed} deltas":
  after a delta, the visible set is the previous one without the removed cells, with the
  added ones.
\<close>

definition visibleAfter :: "nat set \<Rightarrow> ICellVisibilityChangeEvent \<Rightarrow> nat set" where
  "visibleAfter V e = (V - set (removed e)) \<union> set (added e)"

text \<open>
  A run of the controller next to the observer's visible set: each delta comes with
  whether the editor has a view model when the delta is delivered.
\<close>

fun Controller_run ::
  "NotebookStatusBarController \<times> nat set \<Rightarrow> (bool \<times> ICellVisibilityChangeEvent) list
     \<Rightarrow> NotebookStatusBarController \<times> nat set" where
  "Controller_run s [] = s"
| "Controller_run s ((vm, e) # rest) =
     Controller_run (updateVisibleCells vm e (fst s), visibleAfter (snd s) e) rest"

text \<open>
  The deltas of the observer add cells that are not visible at that point, each once.
\<close>

fun deltasAddNew :: "nat set \<Rightarrow> (bool \<times> ICellVisibilityChangeEvent) list \<Rightarrow> bool" where
  "deltasAddNew V [] = True"
| "deltasAddNew V ((vm, e) # rest) =
     (distinct (added e) \<and> set (added e) \<inter> (V - set (removed e)) = {}
      \<and> deltasAddNew (visibleAfter V e) rest)"

subsection \<open>Ordering of status items, and sample values\<close>

text \<open>
  Modelled from the spec: the status bar that orders the items of a cell is outside this
  file. The spec's data model gives \<^verbatim>\<open>priority\<close> as an "integer, higher sorts first": the
  items of a cell are put in descending order of priority, items of equal priority
  keeping their order.
\<close>

definition sortByPriority ::
  "INotebookCellStatusBarItem list \<Rightarrow> INotebookCellStatusBarItem list" where
  "sortByPriority items = sort_key (\<lambda>i. - priority i) items"

text \<open>
  Values for running the model: the metadata of a cell that never ran, a store with
  nothing attached, a registry that knows one renderer, and the two kinds of run state
  used below.
\<close>

definition noMetadata :: NotebookCellInternalMetadata where
  "noMetadata = \<lparr>lastRunSuccess = None, runStartTime = None, runStartTimeAdjustment = None,
                  runEndTime = None, renderDuration = None\<rparr>"

definition emptyStore :: StatusBarStore where
  "emptyStore = \<lparr>attached = [], nextId = 0, pushes = []\<rparr>"

definition sampleServices :: NotebookServices where
  "sampleServices =
     \<lparr>getRendererInfo =
        (\<lambda>key. if key = ''plot'' then Some \<lparr>extensionId = ''ext.plot'', displayName = ''Plot''\<rparr>
               else None),
      toLocaleTimeString = (\<lambda>t. Number_toString t),
      encodeIssueArgs = (\<lambda>extension body. extension)\<rparr>"

text \<open>
  What a session holds in the store, next to what the store held before the session was
  constructed (\<open>base\<close>): once the items under the session's tokens are taken away, the
  attached items are those of \<open>base\<close>; the tokens of \<open>base\<close> were handed out before
  \<open>nextId base\<close>, those of the session from there on.
\<close>

definition ownsAttached :: "StatusBarStore \<Rightarrow> nat list \<Rightarrow> StatusBarStore \<Rightarrow> bool" where
  "ownsAttached base ids store \<longleftrightarrow>
     filter (\<lambda>e. fst e \<notin> set ids) (attached store) = attached base
     \<and> (\<forall>e \<in> set (attached base). fst e < nextId base)
     \<and> nextId base \<le> nextId store
     \<and> (\<forall>i \<in> set ids. nextId base \<le> i \<and> i < nextId store)"

text \<open>
  The events of an execution-state session while the spinner shown at \<open>t0\<close> is held: a
  notification that finds the cell not executing, less than \<^verbatim>\<open>MIN_SPINNER_TIME\<close> after
  \<open>t0\<close>, or the clear-timer looked at before \<open>t0 + MIN_SPINNER_TIME\<close>.
\<close>

fun withinHold :: "int \<Rightarrow> ExecutionStateEvent \<Rightarrow> bool" where
  "withinHold t0 (Notified now rs md) =
     (map_option state rs \<noteq> Some Executing \<and> now - t0 < MIN_SPINNER_TIME)"
| "withinHold t0 (ClearTimerDue now rs md) = (now < t0 + MIN_SPINNER_TIME)"
| "withinHold t0 Dispose = False"

text \<open>
  The events of a timer session during the grace period that started at \<open>t0\<close>: an update
  that computes no item while the cell has a run state, or the grace-period timeout
  looked at before \<open>t0 + UPDATE_TIMER_GRACE_PERIOD\<close>.
\<close>

fun withinGrace :: "NotebookServices \<Rightarrow> int \<Rightarrow> TimerEvent \<Rightarrow> bool" where
  "withinGrace svc t0 (MetadataChanged now rs md) =
     (rs \<noteq> None \<and> fst (timerItemForCell svc False now rs md) = None)"
| "withinGrace svc t0 (ConfigurationChanged verbose now rs md) =
     (rs \<noteq> None \<and> fst (timerItemForCell svc False now rs md) = None)"
| "withinGrace svc t0 (SchedulerDue now rs md) =
     (rs \<noteq> None \<and> fst (timerItemForCell svc False now rs md) = None)"
| "withinGrace svc t0 (DeferredUpdateDue now) = (now < t0 + UPDATE_TIMER_GRACE_PERIOD)"
| "withinGrace svc t0 DisposeTimer = False"

text \<open>
  The controller in step with the visible set \<open>V\<close>: the map holds exactly the handles of
  \<open>V\<close>, the live sessions are exactly the sessions the map holds, each for its own cell,
  and every live session came from an earlier call of the factory.
\<close>

definition inLockstep :: "NotebookStatusBarController \<Rightarrow> nat set \<Rightarrow> bool" where
  "inLockstep c V \<longleftrightarrow>
     dom (visibleCells c) = V
     \<and> (\<forall>session h. liveSessions c session = Some h \<longleftrightarrow> visibleCells c h = Some session)
     \<and> (\<forall>session \<in> dom (liveSessions c). session < created c)"

definition executing :: INotebookCellExecution where
  "executing = \<lparr>state = Executing, didPause = False\<rparr>"

definition paused :: INotebookCellExecution where
  "paused = \<lparr>state = Executing, didPause = True\<rparr>"

section \<open>Properties\<close>

subsection \<open>Duration formatting\<close>

lemma smod_eq_mod_nonneg: "0 \<le> a \<Longrightarrow> 0 < b \<Longrightarrow> (a::int) smod b = a mod b"
  by (simp add: smod_int_alt_def sgn_if)

lemma Number_toString_0: "Number_toString 0 = ''0''"
  by (simp add: Number_toString_def string_of_nat.simps digit_char_def)

lemma formatCellDuration_ms:
  "showMs \<noteq> Some False \<Longrightarrow> d < 1000
     \<Longrightarrow> formatCellDuration d showMs = Number_toString d @ ''ms''"
  by (cases showMs) (auto simp: formatCellDuration_def)

lemma formatCellDuration_seconds:
  assumes "1000 \<le> d"
  shows "formatCellDuration d showMs =
           (if 0 < d div 60000 then Number_toString (d div 60000) @ ''m '' else [])
           @ Number_toString (d div 1000 mod 60) @ ''.''
           @ Number_toString (d mod 1000 div 100) @ ''s''"
proof -
  have seconds: "(d div 1000) smod 60 = d div 1000 mod 60"
    using assms by (intro smod_eq_mod_nonneg) auto
  have rest: "d smod 1000 = d mod 1000"
    using assms by (intro smod_eq_mod_nonneg) auto
  have minutes: "d div 1000 div 60 = d div 60000"
    by (simp add: div_mult2_eq [symmetric])
  show ?thesis
    using assms
    by (simp add: formatCellDuration_def seconds rest minutes Let_def split: option.splits)
qed

lemma formatCellDuration_no_ms:
  assumes "0 \<le> d" "d < 1000"
  shows "formatCellDuration d (Some False) = ''0.'' @ Number_toString (d div 100) @ ''s''"
proof -
  have "d div 1000 = 0" "d smod 1000 = d"
    using assms by (simp_all add: smod_eq_mod_nonneg)
  then show ?thesis
    by (simp add: formatCellDuration_def Number_toString_0)
qed

lemma tenths_truncated:
  fixes d :: int
  shows "0 \<le> d mod 1000 div 100" "d mod 1000 div 100 \<le> 9"
    "100 * (d mod 1000 div 100) \<le> d mod 1000"
    "d mod 1000 < 100 * (d mod 1000 div 100) + 100"
proof -
  define q where "q = d mod 1000 div 100"
  define m where "m = d mod 1000 mod 100"
  have r: "0 \<le> d mod 1000" "d mod 1000 < 1000"
    by simp_all
  have split: "d mod 1000 = 100 * q + m"
    by (simp add: q_def m_def)
  have m: "0 \<le> m" "m < 100"
    by (simp_all add: m_def)
  show "0 \<le> d mod 1000 div 100" "d mod 1000 div 100 \<le> 9"
    "100 * (d mod 1000 div 100) \<le> d mod 1000"
    "d mod 1000 < 100 * (d mod 1000 div 100) + 100"
    unfolding q_def [symmetric] using r m unfolding split by linarith+
qed

lemma duration_parts:
  fixes d :: int
  shows "d = 60000 * (d div 60000) + 1000 * (d div 1000 mod 60) + d mod 1000"
    "0 \<le> d div 1000 mod 60" "d div 1000 mod 60 < 60"
proof -
  have minutes: "d div 60000 = d div 1000 div 60"
    by (simp add: div_mult2_eq [symmetric])
  have whole: "d = 1000 * (d div 1000) + d mod 1000"
    by simp
  have seconds: "d div 1000 = 60 * (d div 1000 div 60) + d div 1000 mod 60"
    by simp
  show "d = 60000 * (d div 60000) + 1000 * (d div 1000 mod 60) + d mod 1000"
    unfolding minutes using whole seconds by linarith
  show "0 \<le> d div 1000 mod 60" "d div 1000 mod 60 < 60"
    by simp_all
qed

lemma formatCellDuration_examples:
  "formatCellDuration 50 None = ''50ms''"
  "formatCellDuration 1500 (Some False) = ''1.5s''"
  "formatCellDuration 65250 None = ''1m 5.2s''"
  by code_simp+

text \<open>
  C4, as the claim states it, fails: with \<^verbatim>\<open>showMilliseconds\<close> false the helper renders a
  duration under 1000ms in the seconds form, so 500 gives \<^verbatim>\<open>0.5s\<close> and not \<^verbatim>\<open>500ms\<close>.
\<close>

theorem formatCellDuration_under_1000_counterexample:
  "formatCellDuration 500 (Some False) = ''0.5s''
   \<and> formatCellDuration 500 (Some False) \<noteq> ''500ms''"
  by code_simp

text \<open>
  C4 (amended). For every whole number of milliseconds \<open>d\<close>: when \<^verbatim>\<open>showMilliseconds\<close> is
  true or omitted, a duration under 1000 renders as \<^verbatim>\<open><d>ms\<close>; a duration of 1000 or more
  renders, whatever the flag, as \<^verbatim>\<open><minutes>m <seconds>.<tenth>s\<close> without the minutes
  segment when the minutes are zero, where minutes, seconds and the sub-second rest
  decompose \<open>d\<close> and the tenth is the rest's hundreds digit, truncated; with
  \<^verbatim>\<open>showMilliseconds\<close> false a duration from 0 to 999 renders as \<^verbatim>\<open>0.<tenth>s\<close>. In
  particular format(50) = "50ms", format(1500, false) = "1.5s", format(65250) = "1m 5.2s".
\<close>

theorem formatCellDuration_rule:
  "(showMilliseconds \<noteq> Some False \<and> d < 1000 \<longrightarrow>
      formatCellDuration d showMilliseconds = Number_toString d @ ''ms'')
   \<and> (1000 \<le> d \<longrightarrow>
        formatCellDuration d showMilliseconds =
          (if 0 < d div 60000 then Number_toString (d div 60000) @ ''m '' else [])
          @ Number_toString (d div 1000 mod 60) @ ''.''
          @ Number_toString (d mod 1000 div 100) @ ''s''
        \<and> d = 60000 * (d div 60000) + 1000 * (d div 1000 mod 60) + d mod 1000
        \<and> 0 \<le> d div 1000 mod 60 \<and> d div 1000 mod 60 < 60
        \<and> 0 \<le> d mod 1000 div 100 \<and> d mod 1000 div 100 \<le> 9
        \<and> 100 * (d mod 1000 div 100) \<le> d mod 1000
        \<and> d mod 1000 < 100 * (d mod 1000 div 100) + 100)
   \<and> (0 \<le> d \<and> d < 1000 \<longrightarrow>
        formatCellDuration d (Some False) = ''0.'' @ Number_toString (d div 100) @ ''s'')
   \<and> formatCellDuration 50 None = ''50ms''
   \<and> formatCellDuration 1500 (Some False) = ''1.5s''
   \<and> formatCellDuration 65250 None = ''1m 5.2s''"
proof (intro conjI impI)
  show "formatCellDuration d showMilliseconds = Number_toString d @ ''ms''"
    if "showMilliseconds \<noteq> Some False \<and> d < 1000"
    using that by (simp add: formatCellDuration_ms)
  show "formatCellDuration d showMilliseconds =
          (if 0 < d div 60000 then Number_toString (d div 60000) @ ''m '' else [])
          @ Number_toString (d div 1000 mod 60) @ ''.''
          @ Number_toString (d mod 1000 div 100) @ ''s''" if "1000 \<le> d"
    using that by (rule formatCellDuration_seconds)
  show "formatCellDuration d (Some False) = ''0.'' @ Number_toString (d div 100) @ ''s''"
    if "0 \<le> d \<and> d < 1000"
    using that by (simp add: formatCellDuration_no_ms)
  show "d = 60000 * (d div 60000) + 1000 * (d div 1000 mod 60) + d mod 1000"
    "0 \<le> d div 1000 mod 60" "d div 1000 mod 60 < 60"
    by (rule duration_parts)+
  show "0 \<le> d mod 1000 div 100" "d mod 1000 div 100 \<le> 9"
    "100 * (d mod 1000 div 100) \<le> d mod 1000"
    "d mod 1000 < 100 * (d mod 1000 div 100) + 100"
    by (rule tenths_truncated)+
  show "formatCellDuration 50 None = ''50ms''"
    "formatCellDuration 1500 (Some False) = ''1.5s''"
    "formatCellDuration 65250 None = ''1m 5.2s''"
    by (rule formatCellDuration_examples)+
qed

theorem formatCellDuration_rule_witness:
  "formatCellDuration 999 None = ''999ms''
   \<and> formatCellDuration 3723456 (Some True) = ''62m 3.4s''
   \<and> formatCellDuration 59999 (Some False) = ''59.9s''
   \<and> formatCellDuration 999 (Some False) = ''0.9s''"
proof -
  have n: "Number_toString 999 = ''999''" "Number_toString 62 = ''62''"
    "Number_toString 3 = ''3''" "Number_toString 4 = ''4''" "Number_toString 59 = ''59''"
    "Number_toString 9 = ''9''"
    by code_simp+
  show ?thesis
    using formatCellDuration_rule [of None 999] formatCellDuration_rule [of "Some True" 3723456]
      formatCellDuration_rule [of "Some False" 59999]
    by (simp add: n)
qed

subsection \<open>The state-to-item mapping and the priorities\<close>

lemma getItemForState_cases:
  "getItemForState runState md =
     (case runState of
        None \<Rightarrow>
          (case lastRunSuccess md of
             Some True \<Rightarrow>
               [\<lparr>itemText = IconText successStateIcon, color = Some cellStatusIconSuccess,
                 tooltip = Some (PlainTooltip ''Success''), alignment = Left,
                 priority = MAX_SAFE_INTEGER\<rparr>]
           | Some False \<Rightarrow>
               [\<lparr>itemText = IconText errorStateIcon, color = Some cellStatusIconError,
                 tooltip = Some (PlainTooltip ''Failed''), alignment = Left,
                 priority = MAX_SAFE_INTEGER\<rparr>]
           | None \<Rightarrow> [])
      | Some r \<Rightarrow>
          (case state r of
             Executing \<Rightarrow>
               [\<lparr>itemText = IconText (if didPause r then executingStateIcon
                                       else ThemeIcon_modify executingStateIcon ''spin''),
                 color = None, tooltip = Some (PlainTooltip ''Executing''), alignment = Left,
                 priority = MAX_SAFE_INTEGER\<rparr>]
           | _ \<Rightarrow>
               [\<lparr>itemText = IconText pendingStateIcon, color = None,
                 tooltip = Some (PlainTooltip ''Pending''), alignment = Left,
                 priority = MAX_SAFE_INTEGER\<rparr>]))"
  by (simp add: getItemForState_def Let_def
           split: option.splits bool.splits NotebookCellExecutionState.splits)

lemma getItemForState_priority:
  "i \<in> set (getItemForState runState md)
     \<Longrightarrow> priority i = MAX_SAFE_INTEGER \<and> alignment i = Left"
  by (auto simp: getItemForState_cases
           split: option.splits bool.splits NotebookCellExecutionState.splits)

lemma getTimeItem_priority:
  "priority (getTimeItem svc v s e a info) = MAX_SAFE_INTEGER - 5"
  by (simp add: getTimeItem_def Let_def)

lemma timerItemForCell_priority:
  "fst (timerItemForCell svc v now rs md) = Some t \<Longrightarrow> priority t = MAX_SAFE_INTEGER - 5"
  by (auto simp: timerItemForCell_def Let_def getTimeItem_priority
           split: if_splits option.splits)

lemma sortByPriority_pair:
  assumes "priority t < priority e"
  shows "sortByPriority [t, e] = [e, t]" "sortByPriority [e, t] = [e, t]"
  using assms by (simp_all add: sortByPriority_def)

text \<open>
  C3. The mapping of \<^verbatim>\<open>_getItemForState\<close>, as a function of the run state and of
  \<^verbatim>\<open>lastRunSuccess\<close>: no run state and \<^verbatim>\<open>lastRunSuccess\<close> true gives the one success-icon
  item, no run state and \<^verbatim>\<open>lastRunSuccess\<close> false the one error-icon item, Pending or
  Unconfirmed the one pending-icon item, Executing the one executing-icon item, whose
  icon is the static one when \<^verbatim>\<open>didPause\<close> holds and the "spin" variant otherwise, and no
  run state with \<^verbatim>\<open>lastRunSuccess\<close> unset gives the empty list. Every item produced has
  priority \<^verbatim>\<open>Number.MAX_SAFE_INTEGER\<close> (2^53 - 1) and left alignment.
\<close>

theorem getItemForState_mapping:
  "(runState = None \<and> lastRunSuccess md = Some True \<longrightarrow>
      getItemForState runState md =
        [\<lparr>itemText = IconText successStateIcon, color = Some cellStatusIconSuccess,
          tooltip = Some (PlainTooltip ''Success''), alignment = Left,
          priority = MAX_SAFE_INTEGER\<rparr>])
   \<and> (runState = None \<and> lastRunSuccess md = Some False \<longrightarrow>
        getItemForState runState md =
          [\<lparr>itemText = IconText errorStateIcon, color = Some cellStatusIconError,
            tooltip = Some (PlainTooltip ''Failed''), alignment = Left,
            priority = MAX_SAFE_INTEGER\<rparr>])
   \<and> (runState = Some r \<and> (state r = Pending \<or> state r = Unconfirmed) \<longrightarrow>
        getItemForState runState md =
          [\<lparr>itemText = IconText pendingStateIcon, color = None,
            tooltip = Some (PlainTooltip ''Pending''), alignment = Left,
            priority = MAX_SAFE_INTEGER\<rparr>])
   \<and> (runState = Some r \<and> state r = Executing \<longrightarrow>
        getItemForState runState md =
          [\<lparr>itemText = IconText (if didPause r then executingStateIcon
                                  else ThemeIcon_modify executingStateIcon ''spin''),
            color = None, tooltip = Some (PlainTooltip ''Executing''), alignment = Left,
            priority = MAX_SAFE_INTEGER\<rparr>])
   \<and> (runState = None \<and> lastRunSuccess md = None \<longrightarrow> getItemForState runState md = [])
   \<and> (\<forall>i \<in> set (getItemForState runState md).
         priority i = MAX_SAFE_INTEGER \<and> alignment i = Left)
   \<and> MAX_SAFE_INTEGER = 9007199254740991
   \<and> executingStateIcon \<noteq> ThemeIcon_modify executingStateIcon ''spin''"
proof (intro conjI impI ballI)
  fix i
  assume "i \<in> set (getItemForState runState md)"
  then show "priority i = MAX_SAFE_INTEGER" "alignment i = Left"
    by (simp_all add: getItemForState_priority)
next
  show "MAX_SAFE_INTEGER = 9007199254740991"
    by (simp add: MAX_SAFE_INTEGER_def)
qed (auto simp: getItemForState_cases)

theorem getItemForState_mapping_witness:
  "getItemForState (Some executing) noMetadata =
     [\<lparr>itemText = IconText (ThemeIcon_modify executingStateIcon ''spin''), color = None,
       tooltip = Some (PlainTooltip ''Executing''), alignment = Left,
       priority = 9007199254740991\<rparr>]
   \<and> getItemForState (Some paused) noMetadata =
     [\<lparr>itemText = IconText executingStateIcon, color = None,
       tooltip = Some (PlainTooltip ''Executing''), alignment = Left,
       priority = 9007199254740991\<rparr>]
   \<and> getItemForState (Some \<lparr>state = Unconfirmed, didPause = False\<rparr>) noMetadata =
     [\<lparr>itemText = IconText pendingStateIcon, color = None,
       tooltip = Some (PlainTooltip ''Pending''), alignment = Left,
       priority = 9007199254740991\<rparr>]
   \<and> getItemForState None (noMetadata\<lparr>lastRunSuccess := Some False\<rparr>) =
     [\<lparr>itemText = IconText errorStateIcon, color = Some cellStatusIconError,
       tooltip = Some (PlainTooltip ''Failed''), alignment = Left,
       priority = 9007199254740991\<rparr>]
   \<and> getItemForState None (noMetadata\<lparr>lastRunSuccess := Some True\<rparr>) =
     [\<lparr>itemText = IconText successStateIcon, color = Some cellStatusIconSuccess,
       tooltip = Some (PlainTooltip ''Success''), alignment = Left,
       priority = 9007199254740991\<rparr>]
   \<and> getItemForState None noMetadata = []"
  using getItemForState_mapping [of "Some executing" noMetadata executing]
    getItemForState_mapping [of "Some paused" noMetadata paused]
    getItemForState_mapping [of "Some \<lparr>state = Unconfirmed, didPause = False\<rparr>" noMetadata
      "\<lparr>state = Unconfirmed, didPause = False\<rparr>"]
    getItemForState_mapping [of None "noMetadata\<lparr>lastRunSuccess := Some False\<rparr>"]
    getItemForState_mapping [of None "noMetadata\<lparr>lastRunSuccess := Some True\<rparr>"]
    getItemForState_mapping [of None noMetadata]
  by (simp add: executing_def paused_def noMetadata_def)

text \<open>
  C9. Every item the timer indicator produces (every result of \<^verbatim>\<open>_getTimeItem\<close>, hence
  every item \<^verbatim>\<open>_update\<close> computes) has priority \<^verbatim>\<open>Number.MAX_SAFE_INTEGER - 5\<close>, every item
  of the execution-state indicator has priority \<^verbatim>\<open>Number.MAX_SAFE_INTEGER\<close>, the first is
  strictly below the second, and so, items being ordered by descending priority, the
  execution-state item of a cell comes before its timer item whichever was attached
  first.
\<close>

theorem timer_priority_below_execution_state:
  "priority (getTimeItem svc verbose startTime endTime adjustment info) = MAX_SAFE_INTEGER - 5
   \<and> (\<forall>t. fst (timerItemForCell svc verbose now runState md) = Some t \<longrightarrow>
         priority t = MAX_SAFE_INTEGER - 5)
   \<and> (\<forall>e \<in> set (getItemForState runState' md'). priority e = MAX_SAFE_INTEGER)
   \<and> (\<forall>t e. fst (timerItemForCell svc verbose now runState md) = Some t
             \<and> e \<in> set (getItemForState runState' md') \<longrightarrow>
         priority t < priority e
         \<and> sortByPriority [t, e] = [e, t] \<and> sortByPriority [e, t] = [e, t])"
proof (intro conjI allI impI ballI)
  show "priority (getTimeItem svc verbose startTime endTime adjustment info)
          = MAX_SAFE_INTEGER - 5"
    by (rule getTimeItem_priority)
next
  fix t
  assume "fst (timerItemForCell svc verbose now runState md) = Some t"
  then show "priority t = MAX_SAFE_INTEGER - 5"
    by (rule timerItemForCell_priority)
next
  fix e
  assume "e \<in> set (getItemForState runState' md')"
  then show "priority e = MAX_SAFE_INTEGER"
    by (simp add: getItemForState_priority)
next
  fix t e
  assume both: "fst (timerItemForCell svc verbose now runState md) = Some t
                \<and> e \<in> set (getItemForState runState' md')"
  have "priority t = MAX_SAFE_INTEGER - 5"
    using both by (intro timerItemForCell_priority) (rule conjunct1)
  moreover have "priority e = MAX_SAFE_INTEGER"
    using both getItemForState_priority [of e runState' md'] by simp
  ultimately show below: "priority t < priority e"
    by simp
  show "sortByPriority [t, e] = [e, t]" "sortByPriority [e, t] = [e, t]"
    using below by (rule sortByPriority_pair)+
qed

theorem timer_priority_below_execution_state_witness:
  "priority (the (fst (timerItemForCell sampleServices False 250 (Some executing)
                        (noMetadata\<lparr>runStartTime := Some 0\<rparr>)))) = 9007199254740986
   \<and> priority (hd (getItemForState (Some executing) noMetadata)) = 9007199254740991
   \<and> sortByPriority
        [the (fst (timerItemForCell sampleServices False 250 (Some executing)
                     (noMetadata\<lparr>runStartTime := Some 0\<rparr>))),
         hd (getItemForState (Some executing) noMetadata)]
      = [hd (getItemForState (Some executing) noMetadata),
         the (fst (timerItemForCell sampleServices False 250 (Some executing)
                     (noMetadata\<lparr>runStartTime := Some 0\<rparr>)))]"
proof -
  have t: "fst (timerItemForCell sampleServices False 250 (Some executing)
                  (noMetadata\<lparr>runStartTime := Some 0\<rparr>))
           = Some (getTimeItem sampleServices False 0 250 (Some 0) None)"
    by (simp add: timerItemForCell_def executing_def noMetadata_def)
  have e: "getItemForState (Some executing) noMetadata =
             [\<lparr>itemText = IconText (ThemeIcon_modify executingStateIcon ''spin''),
               color = None, tooltip = Some (PlainTooltip ''Executing''), alignment = Left,
               priority = MAX_SAFE_INTEGER\<rparr>]"
    by (simp add: getItemForState_cases executing_def)
  show ?thesis
    using timer_priority_below_execution_state
      [of sampleServices False 0 250 "Some 0" None 250 "Some executing"
        "noMetadata\<lparr>runStartTime := Some 0\<rparr>" "Some executing" noMetadata]
    by (simp add: t e MAX_SAFE_INTEGER_def)
qed

subsection \<open>The timer item and its tooltip\<close>

lemma renderTimesLoop_concat:
  "renderTimesLoop svc ed entries acc =
     acc @ concat (map (\<lambda>(key, d). ''- '' @ rendererTitle svc ed key d @ '' ''
                          @ formatCellDuration d None @ ''\<newline>'') entries)"
  by (induction entries arbitrary: acc) auto

lemma getTimeItem_tooltip:
  "tooltip (getTimeItem svc verbose start end adj (Some info)) =
     Some (MarkdownString
       (timerTooltip (toLocaleTimeString svc end)
          (formatCellDuration (infoExecutionDuration info) None)
          (formatCellDuration (infoTimerDuration info - infoExecutionDuration info) None)
          (concat (map (\<lambda>(key, d). ''- '' @ rendererTitle svc (infoExecutionDuration info) key d
                          @ '' '' @ formatCellDuration d None @ ''\<newline>'')
                     (infoRenderDuration info))
           @ ''\<newline>*Use the links above to file an issue using the issue reporter.*\<newline>''))
       True)"
  by (simp add: getTimeItem_def Let_def renderTimesLoop_concat)

lemma getTimeItem_no_tooltip:
  "tooltip (getTimeItem svc verbose start end adj None) = None"
  by (simp add: getTimeItem_def Let_def)

lemma getTimeItem_text:
  "itemText (getTimeItem svc verbose start end adj info) =
     PlainText
       (if verbose
        then ''Last Execution: '' @ toLocaleTimeString svc end @ '', Duration: ''
               @ formatCellDuration
                   (end - start + (case adj of None \<Rightarrow> 0 | Some a \<Rightarrow> a)) (Some False)
        else formatCellDuration
               (end - start + (case adj of None \<Rightarrow> 0 | Some a \<Rightarrow> a)) (Some False))"
  by (simp add: getTimeItem_def Let_def)

lemma timerItemForCell_paused:
  "runState = Some r \<Longrightarrow> didPause r
     \<Longrightarrow> timerItemForCell svc verbose now runState md = (None, False)"
  by (simp add: timerItemForCell_def)

lemma timerItemForCell_executing:
  "runState = Some r \<Longrightarrow> \<not> didPause r \<Longrightarrow> state r = Executing
     \<Longrightarrow> runStartTime md = Some start
     \<Longrightarrow> timerItemForCell svc verbose now runState md =
           (Some (getTimeItem svc verbose start now
                    (Some (case runStartTimeAdjustment md of None \<Rightarrow> 0 | Some a \<Rightarrow> a)) None),
            True)"
  by (simp add: timerItemForCell_def)

lemma timerItemForCell_finished:
  "runStartTime md = Some start \<Longrightarrow> runEndTime md = Some end
     \<Longrightarrow> timerItemForCell svc verbose now None md =
           (Some (getTimeItem svc verbose start end None
                    (Some \<lparr>infoRenderDuration =
                             (case renderDuration md of None \<Rightarrow> [] | Some r \<Rightarrow> r),
                           infoExecutionDuration = end - start,
                           infoTimerDuration =
                             now - start
                             + (case runStartTimeAdjustment md of None \<Rightarrow> 0 | Some a \<Rightarrow> a)\<rparr>)),
            False)"
  by (simp add: timerItemForCell_def)

lemma timerItemForCell_otherwise:
  "(runState = Some r \<and> \<not> didPause r \<and> state r = Executing \<and> runStartTime md = None)
     \<or> (runState = Some r \<and> \<not> didPause r \<and> state r \<noteq> Executing)
     \<or> (runState = None \<and> (runStartTime md = None \<or> runEndTime md = None))
     \<Longrightarrow> timerItemForCell svc verbose now runState md = (None, False)"
  by (auto simp: timerItemForCell_def split: option.splits)

lemma Timer_update_scheduler:
  "scheduler (fst (Timer_update svc now runState md s)) =
     (if snd (timerItemForCell svc (isVerbose (fst s)) now runState md)
      then Some (now + UPDATE_INTERVAL) else scheduler (fst s))"
  by (simp add: Timer_update_def deltaCellStatusBarItems_def Let_def split: prod.splits)

text \<open>
  C8. In the tooltip of the terminal case the per-renderer breakdown has one line for
  every entry of \<^verbatim>\<open>renderDuration\<close>, in order; the title of the entry is the issue-report
  link exactly when (its render duration exceeds 200 and the execution duration is
  under 2000) or its render duration exceeds 1000, and is the renderer's name between
  double asterisks exactly when that condition fails.
\<close>

theorem renderer_entry_issue_link:
  "tooltip (getTimeItem svc verbose start end adj (Some info)) =
     Some (MarkdownString
       (timerTooltip (toLocaleTimeString svc end)
          (formatCellDuration (infoExecutionDuration info) None)
          (formatCellDuration (infoTimerDuration info - infoExecutionDuration info) None)
          (concat (map (\<lambda>(key, d). ''- '' @ rendererTitle svc (infoExecutionDuration info) key d
                          @ '' '' @ formatCellDuration d None @ ''\<newline>'')
                     (infoRenderDuration info))
           @ ''\<newline>*Use the links above to file an issue using the issue reporter.*\<newline>''))
       True)
   \<and> (rendererTitle svc executionDuration key d =
         ''['' @ (case getRendererInfo svc key of None \<Rightarrow> key | Some r \<Rightarrow> displayName r)
           @ ''](command:workbench.action.openIssueReporter?''
           @ issueArgs svc executionDuration key d @ '')''
       \<longleftrightarrow> (d > 200 \<and> executionDuration < 2000) \<or> d > 1000)
   \<and> (rendererTitle svc executionDuration key d =
         ''**'' @ (case getRendererInfo svc key of None \<Rightarrow> key | Some r \<Rightarrow> displayName r)
           @ ''**''
       \<longleftrightarrow> \<not> ((d > 200 \<and> executionDuration < 2000) \<or> d > 1000))"
  by (simp add: getTimeItem_tooltip rendererTitle_def renderIssueLink_def Let_def)

theorem renderer_entry_issue_link_witness:
  "rendererTitle sampleServices 1500 ''plot'' 300 =
     ''[Plot](command:workbench.action.openIssueReporter?ext.plot)''
   \<and> rendererTitle sampleServices 2500 ''plot'' 300 = ''**Plot**''
   \<and> rendererTitle sampleServices 2500 ''table'' 1001 =
     ''[table](command:workbench.action.openIssueReporter?)''
   \<and> rendererTitle sampleServices 1500 ''table'' 200 = ''**table**''"
  using renderer_entry_issue_link [of sampleServices _ _ _ _ _ 1500 "''plot''" 300]
    renderer_entry_issue_link [of sampleServices _ _ _ _ _ 2500 "''plot''" 300]
    renderer_entry_issue_link [of sampleServices _ _ _ _ _ 2500 "''table''" 1001]
    renderer_entry_issue_link [of sampleServices _ _ _ _ _ 1500 "''table''" 200]
  by (simp add: sampleServices_def issueArgs_def)

text \<open>
  C10. In the terminal case (no run state, start and end time present) the text of the
  timer item is the formatted \<^verbatim>\<open>runEndTime - runStartTime\<close>: \<^verbatim>\<open>_getTimeItem\<close> is called
  without an adjustment, which is the same as the adjustment 0, so the text is the same
  whatever \<^verbatim>\<open>runStartTimeAdjustment\<close> is. The adjustment enters the item only through the
  overhead figure of the tooltip, the formatted \<^verbatim>\<open>timerDuration - executionDuration\<close> with
  \<^verbatim>\<open>timerDuration = now - runStartTime + adjustment\<close>. In the executing case the text is
  the formatted \<^verbatim>\<open>now - runStartTime + adjustment\<close>.
\<close>

theorem terminal_duration_without_adjustment:
  "getTimeItem svc verbose start end None info = getTimeItem svc verbose start end (Some 0) info
   \<and> (runStartTime md = Some start \<and> runEndTime md = Some end \<longrightarrow>
        fst (timerItemForCell svc verbose now None md) =
          Some \<lparr>itemText =
                   PlainText
                     (if verbose
                      then ''Last Execution: '' @ toLocaleTimeString svc end @ '', Duration: ''
                             @ formatCellDuration (end - start) (Some False)
                      else formatCellDuration (end - start) (Some False)),
                 color = None,
                 tooltip =
                   Some (MarkdownString
                     (timerTooltip (toLocaleTimeString svc end)
                        (formatCellDuration (end - start) None)
                        (formatCellDuration
                           (now - start
                            + (case runStartTimeAdjustment md of None \<Rightarrow> 0 | Some a \<Rightarrow> a)
                            - (end - start)) None)
                        (concat (map (\<lambda>(key, d). ''- '' @ rendererTitle svc (end - start) key d
                                        @ '' '' @ formatCellDuration d None @ ''\<newline>'')
                                   (case renderDuration md of None \<Rightarrow> [] | Some r \<Rightarrow> r))
                         @ ''\<newline>*Use the links above to file an issue using the issue reporter.*\<newline>''))
                     True),
                 alignment = Left, priority = MAX_SAFE_INTEGER - 5\<rparr>
        \<and> map_option itemText
            (fst (timerItemForCell svc verbose now None
                    (md\<lparr>runStartTimeAdjustment := otherAdjustment\<rparr>)))
          = map_option itemText (fst (timerItemForCell svc verbose now None md)))
   \<and> (runState = Some r \<and> \<not> didPause r \<and> state r = Executing
        \<and> runStartTime md = Some start \<longrightarrow>
        map_option itemText (fst (timerItemForCell svc verbose now runState md)) =
          Some (PlainText
            (if verbose
             then ''Last Execution: '' @ toLocaleTimeString svc now @ '', Duration: ''
                    @ formatCellDuration
                        (now - start
                         + (case runStartTimeAdjustment md of None \<Rightarrow> 0 | Some a \<Rightarrow> a))
                        (Some False)
             else formatCellDuration
                    (now - start
                     + (case runStartTimeAdjustment md of None \<Rightarrow> 0 | Some a \<Rightarrow> a))
                    (Some False))))"
proof (intro conjI impI)
  show "getTimeItem svc verbose start end None info
          = getTimeItem svc verbose start end (Some 0) info"
    by (simp add: getTimeItem_def)
next
  assume times: "runStartTime md = Some start \<and> runEndTime md = Some end"
  then show "fst (timerItemForCell svc verbose now None md) =
          Some \<lparr>itemText =
                   PlainText
                     (if verbose
                      then ''Last Execution: '' @ toLocaleTimeString svc end @ '', Duration: ''
                             @ formatCellDuration (end - start) (Some False)
                      else formatCellDuration (end - start) (Some False)),
                 color = None,
                 tooltip =
                   Some (MarkdownString
                     (timerTooltip (toLocaleTimeString svc end)
                        (formatCellDuration (end - start) None)
                        (formatCellDuration
                           (now - start
                            + (case runStartTimeAdjustment md of None \<Rightarrow> 0 | Some a \<Rightarrow> a)
                            - (end - start)) None)
                        (concat (map (\<lambda>(key, d). ''- '' @ rendererTitle svc (end - start) key d
                                        @ '' '' @ formatCellDuration d None @ ''\<newline>'')
                                   (case renderDuration md of None \<Rightarrow> [] | Some r \<Rightarrow> r))
                         @ ''\<newline>*Use the links above to file an issue using the issue reporter.*\<newline>''))
                     True),
                 alignment = Left, priority = MAX_SAFE_INTEGER - 5\<rparr>"
    by (simp add: timerItemForCell_finished)
       (simp add: getTimeItem_def renderTimesLoop_concat Let_def)
  show "map_option itemText
            (fst (timerItemForCell svc verbose now None
                    (md\<lparr>runStartTimeAdjustment := otherAdjustment\<rparr>)))
          = map_option itemText (fst (timerItemForCell svc verbose now None md))"
    using times by (simp add: timerItemForCell_finished getTimeItem_text)
next
  assume "runState = Some r \<and> \<not> didPause r \<and> state r = Executing
            \<and> runStartTime md = Some start"
  then show "map_option itemText (fst (timerItemForCell svc verbose now runState md)) =
          Some (PlainText
            (if verbose
             then ''Last Execution: '' @ toLocaleTimeString svc now @ '', Duration: ''
                    @ formatCellDuration
                        (now - start
                         + (case runStartTimeAdjustment md of None \<Rightarrow> 0 | Some a \<Rightarrow> a))
                        (Some False)
             else formatCellDuration
                    (now - start
                     + (case runStartTimeAdjustment md of None \<Rightarrow> 0 | Some a \<Rightarrow> a))
                    (Some False)))"
    by (simp add: timerItemForCell_executing getTimeItem_text)
qed

theorem terminal_duration_without_adjustment_witness:
  "map_option itemText
     (fst (timerItemForCell sampleServices False 2000 None
             (noMetadata\<lparr>runStartTime := Some 0, runStartTimeAdjustment := Some 400,
                          runEndTime := Some 1500\<rparr>)))
     = Some (PlainText ''1.5s'')
   \<and> map_option tooltip
       (fst (timerItemForCell sampleServices False 2000 None
               (noMetadata\<lparr>runStartTime := Some 0, runStartTimeAdjustment := Some 400,
                            runEndTime := Some 1500\<rparr>)))
     = Some (Some (MarkdownString
         (timerTooltip ''1500'' ''1.5s'' ''900ms''
            ''\<newline>*Use the links above to file an issue using the issue reporter.*\<newline>'')
         True))
   \<and> map_option itemText
       (fst (timerItemForCell sampleServices False 1000 (Some executing)
               (noMetadata\<lparr>runStartTime := Some 0, runStartTimeAdjustment := Some 400\<rparr>)))
     = Some (PlainText ''1.4s'')"
proof -
  have f: "formatCellDuration 1500 (Some False) = ''1.5s''"
    "formatCellDuration 1500 None = ''1.5s''" "formatCellDuration 900 None = ''900ms''"
    "formatCellDuration 1400 (Some False) = ''1.4s''" "Number_toString 1500 = ''1500''"
    by code_simp+
  show ?thesis
    using terminal_duration_without_adjustment
      [of sampleServices False 0 1500 _
        "noMetadata\<lparr>runStartTime := Some 0, runStartTimeAdjustment := Some 400,
                     runEndTime := Some 1500\<rparr>" 2000]
      terminal_duration_without_adjustment
      [of sampleServices False 0 _ _
        "noMetadata\<lparr>runStartTime := Some 0, runStartTimeAdjustment := Some 400\<rparr>"
        1000 _ "Some executing" executing]
    by (simp add: f noMetadata_def executing_def sampleServices_def)
qed

text \<open>
  C5. What the recomputation of the timer indicator produces: no item when \<^verbatim>\<open>didPause\<close>
  holds; else, when the state is Executing and the start time is a number, the duration
  item for \<^verbatim>\<open>now - start + adjustment\<close> (without a tooltip), and \<^verbatim>\<open>_update\<close> schedules itself
  again in 100ms; else, when there is no run state and the start and end times are numbers,
  the item of the finished run with the tooltip, and \<^verbatim>\<open>_update\<close> leaves the scheduler as
  it was; in every other case no item.
\<close>

theorem timerItemForCell_cases:
  "(runState = Some r \<and> didPause r \<longrightarrow>
      timerItemForCell svc verbose now runState md = (None, False))
   \<and> (runState = Some r \<and> \<not> didPause r \<and> state r = Executing
        \<and> runStartTime md = Some start \<longrightarrow>
        timerItemForCell svc verbose now runState md =
          (Some (getTimeItem svc verbose start now
                   (Some (case runStartTimeAdjustment md of None \<Rightarrow> 0 | Some a \<Rightarrow> a)) None),
           True)
        \<and> itemText (getTimeItem svc False start now
                      (Some (case runStartTimeAdjustment md of None \<Rightarrow> 0 | Some a \<Rightarrow> a)) None)
          = PlainText (formatCellDuration
              (now - start + (case runStartTimeAdjustment md of None \<Rightarrow> 0 | Some a \<Rightarrow> a))
              (Some False))
        \<and> tooltip (getTimeItem svc verbose start now
                     (Some (case runStartTimeAdjustment md of None \<Rightarrow> 0 | Some a \<Rightarrow> a)) None)
          = None
        \<and> scheduler (fst (Timer_update svc now runState md s)) = Some (now + 100))
   \<and> (runState = None \<and> runStartTime md = Some start \<and> runEndTime md = Some end \<longrightarrow>
        timerItemForCell svc verbose now runState md =
          (Some (getTimeItem svc verbose start end None
                   (Some \<lparr>infoRenderDuration =
                            (case renderDuration md of None \<Rightarrow> [] | Some r \<Rightarrow> r),
                          infoExecutionDuration = end - start,
                          infoTimerDuration =
                            now - start
                            + (case runStartTimeAdjustment md of None \<Rightarrow> 0 | Some a \<Rightarrow> a)\<rparr>)),
           False)
        \<and> (\<exists>markdown. map_option tooltip (fst (timerItemForCell svc verbose now runState md))
                         = Some (Some (MarkdownString markdown True)))
        \<and> scheduler (fst (Timer_update svc now runState md s)) = scheduler (fst s))
   \<and> ((runState = Some r \<and> \<not> didPause r \<and> state r = Executing \<and> runStartTime md = None)
        \<or> (runState = Some r \<and> \<not> didPause r \<and> state r \<noteq> Executing)
        \<or> (runState = None \<and> (runStartTime md = None \<or> runEndTime md = None)) \<longrightarrow>
        timerItemForCell svc verbose now runState md = (None, False))"
proof (intro conjI impI)
  assume "runState = Some r \<and> didPause r"
  then show "timerItemForCell svc verbose now runState md = (None, False)"
    by (simp add: timerItemForCell_paused)
next
  assume running: "runState = Some r \<and> \<not> didPause r \<and> state r = Executing
                     \<and> runStartTime md = Some start"
  then show item: "timerItemForCell svc verbose now runState md =
          (Some (getTimeItem svc verbose start now
                   (Some (case runStartTimeAdjustment md of None \<Rightarrow> 0 | Some a \<Rightarrow> a)) None),
           True)"
    by (simp add: timerItemForCell_executing)
  show "itemText (getTimeItem svc False start now
                      (Some (case runStartTimeAdjustment md of None \<Rightarrow> 0 | Some a \<Rightarrow> a)) None)
          = PlainText (formatCellDuration
              (now - start + (case runStartTimeAdjustment md of None \<Rightarrow> 0 | Some a \<Rightarrow> a))
              (Some False))"
    by (simp add: getTimeItem_text)
  show "tooltip (getTimeItem svc verbose start now
                     (Some (case runStartTimeAdjustment md of None \<Rightarrow> 0 | Some a \<Rightarrow> a)) None)
          = None"
    by (rule getTimeItem_no_tooltip)
  have "snd (timerItemForCell svc (isVerbose (fst s)) now runState md)"
    using running by (simp add: timerItemForCell_executing)
  then show "scheduler (fst (Timer_update svc now runState md s)) = Some (now + 100)"
    by (simp add: Timer_update_scheduler UPDATE_INTERVAL_def)
next
  assume finished: "runState = None \<and> runStartTime md = Some start
                      \<and> runEndTime md = Some end"
  then show "timerItemForCell svc verbose now runState md =
          (Some (getTimeItem svc verbose start end None
                   (Some \<lparr>infoRenderDuration =
                            (case renderDuration md of None \<Rightarrow> [] | Some r \<Rightarrow> r),
                          infoExecutionDuration = end - start,
                          infoTimerDuration =
                            now - start
                            + (case runStartTimeAdjustment md of None \<Rightarrow> 0 | Some a \<Rightarrow> a)\<rparr>)),
           False)"
    by (simp add: timerItemForCell_finished)
  show "\<exists>markdown. map_option tooltip (fst (timerItemForCell svc verbose now runState md))
                         = Some (Some (MarkdownString markdown True))"
    using finished by (simp add: timerItemForCell_finished getTimeItem_tooltip)
  have "\<not> snd (timerItemForCell svc (isVerbose (fst s)) now runState md)"
    using finished by (simp add: timerItemForCell_finished)
  then show "scheduler (fst (Timer_update svc now runState md s)) = scheduler (fst s)"
    by (simp add: Timer_update_scheduler)
next
  assume "(runState = Some r \<and> \<not> didPause r \<and> state r = Executing \<and> runStartTime md = None)
        \<or> (runState = Some r \<and> \<not> didPause r \<and> state r \<noteq> Executing)
        \<or> (runState = None \<and> (runStartTime md = None \<or> runEndTime md = None))"
  then show "timerItemForCell svc verbose now runState md = (None, False)"
    by (rule timerItemForCell_otherwise)
qed

theorem timerItemForCell_cases_witness:
  "timerItemForCell sampleServices False 250 (Some paused)
       (noMetadata\<lparr>runStartTime := Some 0\<rparr>) = (None, False)
   \<and> map_option itemText
       (fst (timerItemForCell sampleServices False 1250 (Some executing)
               (noMetadata\<lparr>runStartTime := Some 0, runStartTimeAdjustment := Some 250\<rparr>)))
     = Some (PlainText ''1.5s'')
   \<and> snd (timerItemForCell sampleServices False 1250 (Some executing)
            (noMetadata\<lparr>runStartTime := Some 0, runStartTimeAdjustment := Some 250\<rparr>))
   \<and> \<not> snd (timerItemForCell sampleServices False 1250 None
               (noMetadata\<lparr>runStartTime := Some 0, runEndTime := Some 1000\<rparr>))
   \<and> timerItemForCell sampleServices False 1250 (Some \<lparr>state = Pending, didPause = False\<rparr>)
       (noMetadata\<lparr>runStartTime := Some 0\<rparr>) = (None, False)
   \<and> timerItemForCell sampleServices False 1250 None (noMetadata\<lparr>runStartTime := Some 0\<rparr>)
     = (None, False)"
proof -
  have f: "formatCellDuration 1500 (Some False) = ''1.5s''"
    by code_simp
  show ?thesis
    using timerItemForCell_cases
      [of "Some paused" paused sampleServices False 250 "noMetadata\<lparr>runStartTime := Some 0\<rparr>"]
      timerItemForCell_cases
      [of "Some executing" executing sampleServices False 1250
        "noMetadata\<lparr>runStartTime := Some 0, runStartTimeAdjustment := Some 250\<rparr>" 0]
      timerItemForCell_cases
      [of None _ sampleServices False 1250
        "noMetadata\<lparr>runStartTime := Some 0, runEndTime := Some 1000\<rparr>" 0 _ 1000]
      timerItemForCell_cases
      [of "Some \<lparr>state = Pending, didPause = False\<rparr>" "\<lparr>state = Pending, didPause = False\<rparr>"
        sampleServices False 1250 "noMetadata\<lparr>runStartTime := Some 0\<rparr>"]
      timerItemForCell_cases
      [of None _ sampleServices False 1250 "noMetadata\<lparr>runStartTime := Some 0\<rparr>"]
    by (simp add: f noMetadata_def executing_def paused_def getTimeItem_text)
qed

subsection \<open>Disposal of a session\<close>

lemma delta_pushes:
  "pushes (snd (deltaCellStatusBarItems ids h items store)) = pushes store @ [(h, items)]"
  by (simp add: deltaCellStatusBarItems_def Let_def)

lemma delta_empty_attached:
  "attached (snd (deltaCellStatusBarItems ids h [] store)) =
     filter (\<lambda>e. fst e \<notin> set ids) (attached store)"
  by (simp add: deltaCellStatusBarItems_def)

lemma ownsAttached_delta:
  assumes "ownsAttached base ids store"
  shows "ownsAttached base (fst (deltaCellStatusBarItems ids h items store))
           (snd (deltaCellStatusBarItems ids h items store))"
proof -
  let ?new = "[nextId store ..< nextId store + length items]"
  have old: "\<forall>e \<in> set (attached base). fst e \<notin> set ?new"
    using assms by (fastforce simp: ownsAttached_def)
  have kept: "filter (\<lambda>e. fst e \<notin> set ?new) (filter (\<lambda>e. fst e \<notin> set ids) (attached store))
                = attached base"
    using assms old by (simp add: ownsAttached_def del: filter_filter)
  have new: "filter (\<lambda>e. fst e \<notin> set ?new) (zip ?new (map (Pair h) items)) = []"
    by (rule filter_False) (auto dest: set_zip_leftD)
  show ?thesis
    using assms kept new
    by (simp add: ownsAttached_def deltaCellStatusBarItems_def Let_def del: filter_filter)
qed

lemma ownsAttached_disposed:
  assumes "ownsAttached base ids store"
  shows "attached (snd (deltaCellStatusBarItems ids h [] store)) = attached base"
    and "ownsAttached base ids (snd (deltaCellStatusBarItems ids h [] store))"
proof -
  show gone: "attached (snd (deltaCellStatusBarItems ids h [] store)) = attached base"
    using assms by (simp add: delta_empty_attached ownsAttached_def)
  have "\<forall>e \<in> set (attached base). fst e \<notin> set ids"
    using assms by (fastforce simp: ownsAttached_def)
  then have "filter (\<lambda>e. fst e \<notin> set ids) (attached base) = attached base"
    by simp
  then show "ownsAttached base ids (snd (deltaCellStatusBarItems ids h [] store))"
    using assms gone by (simp add: ownsAttached_def) (simp add: deltaCellStatusBarItems_def)
qed

lemma getItemsForCell_session:
  "currentItemIds (snd (getItemsForCell now rs md this)) = currentItemIds this
   \<and> cellHandle (snd (getItemsForCell now rs md this)) = cellHandle this
   \<and> isDisposed (snd (getItemsForCell now rs md this)) = isDisposed this"
  by (simp add: getItemsForCell_def Let_def split: option.splits)

lemma ExecutionState_update_owns:
  assumes "ownsAttached base (currentItemIds (fst s)) (snd s)"
  shows "ownsAttached base (currentItemIds (fst (ExecutionState_update now rs md s)))
           (snd (ExecutionState_update now rs md s))"
proof (cases "fst (getItemsForCell now rs md (fst s))")
  case None
  obtain this where result: "getItemsForCell now rs md (fst s) = (None, this)"
    using None by (cases "getItemsForCell now rs md (fst s)") simp
  have "currentItemIds this = currentItemIds (fst s)"
    using getItemsForCell_session [of now rs md "fst s"] result by simp
  then show ?thesis
    using assms by (simp add: ExecutionState_update_def result)
next
  case (Some items)
  obtain this where result: "getItemsForCell now rs md (fst s) = (Some items, this)"
    using Some by (cases "getItemsForCell now rs md (fst s)") simp
  have ids: "currentItemIds this = currentItemIds (fst s)"
    using getItemsForCell_session [of now rs md "fst s"] result by simp
  show ?thesis
    using ownsAttached_delta [OF assms, of "cellHandle this" items]
    by (simp add: ExecutionState_update_def result ids case_prod_beta)
qed

lemma ExecutionState_step_owns:
  assumes "ownsAttached base (currentItemIds (fst s)) (snd s)"
  shows "ownsAttached base (currentItemIds (fst (ExecutionState_step s ev)))
           (snd (ExecutionState_step s ev))"
proof (cases ev)
  case (Notified now rs md)
  then show ?thesis
    using assms by (simp add: ExecutionState_update_owns)
next
  case (ClearTimerDue now rs md)
  have "ownsAttached base
          (currentItemIds (fst (clearExecutingStateTimer_callback now rs md s)))
          (snd (clearExecutingStateTimer_callback now rs md s))"
    unfolding clearExecutingStateTimer_callback_def
    by (rule ExecutionState_update_owns) (simp add: assms)
  then show ?thesis
    using assms ClearTimerDue by (simp split: option.splits)
next
  case Dispose
  then show ?thesis
    using ownsAttached_disposed(2) [OF assms, of "cellHandle (fst s)"]
    by (simp add: ExecutionState_dispose_def Let_def)
qed

lemma ExecutionState_run_owns:
  "ownsAttached base (currentItemIds (fst s)) (snd s)
     \<Longrightarrow> ownsAttached base (currentItemIds (fst (ExecutionState_run s evs)))
           (snd (ExecutionState_run s evs))"
  unfolding ExecutionState_run_def
  by (induction evs arbitrary: s) (simp_all add: ExecutionState_step_owns)

lemma ownsAttached_base:
  "\<forall>e \<in> set (attached base). fst e < nextId base \<Longrightarrow> ownsAttached base [] base"
  by (simp add: ownsAttached_def)

lemma ExecutionState_new_owns:
  assumes "\<forall>e \<in> set (attached base). fst e < nextId base"
  shows "ownsAttached base (currentItemIds (fst (ExecutionState_new h now rs md base)))
           (snd (ExecutionState_new h now rs md base))"
  unfolding ExecutionState_new_def
  by (rule ExecutionState_update_owns) (simp add: ownsAttached_base [OF assms])

lemma ExecutionState_disposed_run:
  assumes "\<forall>e \<in> set (attached base). fst e < nextId base"
  shows "attached (snd (ExecutionState_run (ExecutionState_new h now rs md base)
                          (evs @ [Dispose]))) = attached base"
proof -
  let ?s = "ExecutionState_run (ExecutionState_new h now rs md base) evs"
  have "ownsAttached base (currentItemIds (fst ?s)) (snd ?s)"
    by (rule ExecutionState_run_owns) (rule ExecutionState_new_owns [OF assms])
  then have "attached (snd (ExecutionState_dispose ?s)) = attached base"
    using ownsAttached_disposed(1) [of base "currentItemIds (fst ?s)" "snd ?s"]
    by (simp add: ExecutionState_dispose_def Let_def)
  then show ?thesis
    by (simp add: ExecutionState_run_def)
qed

lemma ExecutionState_after_dispose:
  "ev \<noteq> Dispose \<Longrightarrow> ExecutionState_step (ExecutionState_dispose s) ev = ExecutionState_dispose s"
  by (cases ev) (simp_all add: ExecutionState_dispose_def Let_def)

lemma timerItemForCell_verbose:
  "fst (timerItemForCell svc v now rs md) = None
     \<longleftrightarrow> fst (timerItemForCell svc v' now rs md) = None"
  by (simp add: timerItemForCell_def Let_def split: option.splits)

lemma timerItemForCell_none_unscheduled:
  "fst (timerItemForCell svc v now rs md) = None \<Longrightarrow> \<not> snd (timerItemForCell svc v now rs md)"
  by (auto simp: timerItemForCell_def Let_def split: option.splits if_splits)

lemma Timer_update_waits:
  assumes "rs \<noteq> None" "fst (timerItemForCell svc (isVerbose (fst s)) now rs md) = None"
  shows "Timer_update svc now rs md s =
           (if deferredUpdate (fst s) = None
            then (fst s)\<lparr>deferredUpdate :=
                           Some \<lparr>due = now + UPDATE_TIMER_GRACE_PERIOD, cancelled = False\<rparr>\<rparr>
            else fst s,
            snd s)"
proof -
  obtain b where "timerItemForCell svc (isVerbose (fst s)) now rs md = (None, b)"
    using assms(2) by (cases "timerItemForCell svc (isVerbose (fst s)) now rs md") simp
  moreover have "\<not> b"
    using timerItemForCell_none_unscheduled [OF assms(2)] calculation by simp
  ultimately show ?thesis
    using assms(1)
    by (simp add: Timer_update_def disposableTimeout_def Let_def)
qed

lemma Timer_update_replaces:
  assumes "timerItemForCell svc (isVerbose (fst s)) now rs md = (item, b)"
    and "rs = None \<or> item \<noteq> None"
  shows "Timer_update svc now rs md s =
           (let d = deltaCellStatusBarItems (currentItemIds (fst s)) (cellHandle (fst s))
                      (case item of None \<Rightarrow> [] | Some i \<Rightarrow> [i]) (snd s)
            in ((if b then (fst s)\<lparr>scheduler := Some (now + UPDATE_INTERVAL)\<rparr> else fst s)
                  \<lparr>deferredUpdate := None, currentItemIds := fst d\<rparr>,
                snd d))"
proof (cases item)
  case None
  then have rs: "rs = None"
    using assms(2) by simp
  have result: "timerItemForCell svc (isVerbose (fst s)) now None md = (None, b)"
    using assms(1) None rs by simp
  show ?thesis
    by (cases b) (simp_all add: Timer_update_def result rs None Let_def case_prod_beta)
next
  case (Some i)
  then show ?thesis
    by (cases b) (simp_all add: Timer_update_def assms(1) Let_def case_prod_beta)
qed

lemma Timer_update_pushes:
  assumes "rs = None \<or> fst (timerItemForCell svc (isVerbose (fst s)) now rs md) \<noteq> None"
  shows "deferredUpdate (fst (Timer_update svc now rs md s)) = None"
    and "cellHandle (fst (Timer_update svc now rs md s)) = cellHandle (fst s)"
    and "isDisposed (fst (Timer_update svc now rs md s)) = isDisposed (fst s)"
    and "pushes (snd (Timer_update svc now rs md s)) =
           pushes (snd s)
           @ [(cellHandle (fst s),
               case fst (timerItemForCell svc (isVerbose (fst s)) now rs md) of
                 None \<Rightarrow> [] | Some i \<Rightarrow> [i])]"
proof -
  obtain item b where result:
    "timerItemForCell svc (isVerbose (fst s)) now rs md = (item, b)"
    by (cases "timerItemForCell svc (isVerbose (fst s)) now rs md")
  have eq: "Timer_update svc now rs md s =
           (let d = deltaCellStatusBarItems (currentItemIds (fst s)) (cellHandle (fst s))
                      (case item of None \<Rightarrow> [] | Some i \<Rightarrow> [i]) (snd s)
            in ((if b then (fst s)\<lparr>scheduler := Some (now + UPDATE_INTERVAL)\<rparr> else fst s)
                  \<lparr>deferredUpdate := None, currentItemIds := fst d\<rparr>,
                snd d))"
    using assms result by (intro Timer_update_replaces) simp_all
  show "deferredUpdate (fst (Timer_update svc now rs md s)) = None"
    "cellHandle (fst (Timer_update svc now rs md s)) = cellHandle (fst s)"
    "isDisposed (fst (Timer_update svc now rs md s)) = isDisposed (fst s)"
    by (simp_all add: eq Let_def)
  show "pushes (snd (Timer_update svc now rs md s)) =
           pushes (snd s)
           @ [(cellHandle (fst s),
               case fst (timerItemForCell svc (isVerbose (fst s)) now rs md) of
                 None \<Rightarrow> [] | Some i \<Rightarrow> [i])]"
    by (simp add: eq Let_def delta_pushes result)
qed

lemma Timer_update_owns:
  assumes "ownsAttached base (currentItemIds (fst s)) (snd s)"
  shows "ownsAttached base (currentItemIds (fst (Timer_update svc now rs md s)))
           (snd (Timer_update svc now rs md s))"
proof (cases "rs \<noteq> None \<and> fst (timerItemForCell svc (isVerbose (fst s)) now rs md) = None")
  case True
  then show ?thesis
    using assms by (simp add: Timer_update_waits)
next
  case False
  obtain item b where result:
    "timerItemForCell svc (isVerbose (fst s)) now rs md = (item, b)"
    by (cases "timerItemForCell svc (isVerbose (fst s)) now rs md")
  let ?items = "case item of None \<Rightarrow> [] | Some i \<Rightarrow> [i]"
  have "rs = None \<or> item \<noteq> None"
    using False result by auto
  then show ?thesis
    using ownsAttached_delta [OF assms, of "cellHandle (fst s)" ?items]
    by (simp add: Timer_update_replaces [OF result] Let_def)
qed

lemma Timer_step_owns:
  assumes "ownsAttached base (currentItemIds (fst s)) (snd s)"
  shows "ownsAttached base (currentItemIds (fst (Timer_step svc s ev)))
           (snd (Timer_step svc s ev))"
proof (cases ev)
  case (MetadataChanged now rs md)
  then show ?thesis
    using assms by (simp add: Timer_update_owns)
next
  case (ConfigurationChanged verbose now rs md)
  have "ownsAttached base
          (currentItemIds (fst (Timer_update svc now rs md
                                  ((fst s)\<lparr>isVerbose := verbose\<rparr>, snd s))))
          (snd (Timer_update svc now rs md ((fst s)\<lparr>isVerbose := verbose\<rparr>, snd s)))"
    by (rule Timer_update_owns) (simp add: assms)
  then show ?thesis
    using assms ConfigurationChanged by simp
next
  case (SchedulerDue now rs md)
  have "ownsAttached base
          (currentItemIds (fst (scheduler_callback svc now rs md s)))
          (snd (scheduler_callback svc now rs md s))"
    unfolding scheduler_callback_def
    by (rule Timer_update_owns) (simp add: assms)
  then show ?thesis
    using assms SchedulerDue by (simp split: option.splits)
next
  case (DeferredUpdateDue now)
  have "ownsAttached base (currentItemIds (fst (deferredUpdate_callback s)))
          (snd (deferredUpdate_callback s))"
    using ownsAttached_delta [OF assms, of "cellHandle (fst s)" "[]"]
    by (simp add: deferredUpdate_callback_def case_prod_beta)
  then show ?thesis
    using assms DeferredUpdateDue by (simp split: option.splits)
next
  case DisposeTimer
  then show ?thesis
    using ownsAttached_disposed(2) [OF assms, of "cellHandle (fst s)"]
    by (simp add: Timer_dispose_def Let_def)
qed

lemma Timer_run_owns:
  "ownsAttached base (currentItemIds (fst s)) (snd s)
     \<Longrightarrow> ownsAttached base (currentItemIds (fst (Timer_run svc s evs)))
           (snd (Timer_run svc s evs))"
  unfolding Timer_run_def
  by (induction evs arbitrary: s) (simp_all add: Timer_step_owns)

lemma Timer_disposed_run:
  assumes "\<forall>e \<in> set (attached base). fst e < nextId base"
  shows "attached (snd (Timer_run svc (Timer_new svc verbose h now rs md base)
                          (evs @ [DisposeTimer]))) = attached base"
proof -
  let ?s = "Timer_run svc (Timer_new svc verbose h now rs md base) evs"
  have "ownsAttached base (currentItemIds (fst (Timer_new svc verbose h now rs md base)))
          (snd (Timer_new svc verbose h now rs md base))"
    unfolding Timer_new_def
    by (rule Timer_update_owns) (simp add: ownsAttached_base [OF assms])
  then have "ownsAttached base (currentItemIds (fst ?s)) (snd ?s)"
    by (rule Timer_run_owns)
  then have "attached (snd (Timer_dispose ?s)) = attached base"
    using ownsAttached_disposed(1) [of base "currentItemIds (fst ?s)" "snd ?s"]
    by (simp add: Timer_dispose_def Let_def)
  then show ?thesis
    by (simp add: Timer_run_def)
qed

lemma Timer_after_dispose:
  "ev \<noteq> DisposeTimer \<Longrightarrow> Timer_step svc (Timer_dispose s) ev = Timer_dispose s"
  by (cases ev) (auto simp: Timer_dispose_def Let_def split: option.splits)

text \<open>
  C7. Disposing a session of either kind, in any state (also while its minimum-display
  or grace-period timeout or its scheduler is pending), ends with one more push to the
  store, of the empty list for the session's cell, which takes away the items under the
  session's tokens. Disposal cancels the timeouts: afterwards the clear-timer and the
  scheduler are unset and the grace-period timeout is cancelled, so that no later
  event changes the session or the store. Over a whole life of a session, from its
  construction on a store through any events to its disposal, the store holds
  afterwards exactly the items it held before: none of the session's items is left.
\<close>

theorem dispose_clears_items:
  "pushes (snd (ExecutionState_dispose s)) = pushes (snd s) @ [(cellHandle (fst s), [])]
   \<and> attached (snd (ExecutionState_dispose s)) =
       filter (\<lambda>e. fst e \<notin> set (currentItemIds (fst s))) (attached (snd s))
   \<and> clearExecutingStateTimer (fst (ExecutionState_dispose s)) = None
   \<and> (\<forall>ev. ev \<noteq> Dispose \<longrightarrow>
         ExecutionState_step (ExecutionState_dispose s) ev = ExecutionState_dispose s)
   \<and> ((\<forall>e \<in> set (attached base). fst e < nextId base) \<longrightarrow>
        attached (snd (ExecutionState_run (ExecutionState_new h now rs md base)
                         (evs @ [Dispose]))) = attached base)
   \<and> pushes (snd (Timer_dispose t)) = pushes (snd t) @ [(cellHandle (fst t), [])]
   \<and> attached (snd (Timer_dispose t)) =
       filter (\<lambda>e. fst e \<notin> set (currentItemIds (fst t))) (attached (snd t))
   \<and> scheduler (fst (Timer_dispose t)) = None
   \<and> (\<forall>d. deferredUpdate (fst (Timer_dispose t)) = Some d \<longrightarrow> cancelled d)
   \<and> (\<forall>ev. ev \<noteq> DisposeTimer \<longrightarrow>
         Timer_step svc (Timer_dispose t) ev = Timer_dispose t)
   \<and> ((\<forall>e \<in> set (attached base). fst e < nextId base) \<longrightarrow>
        attached (snd (Timer_run svc (Timer_new svc verbose h now rs md base)
                         (tevs @ [DisposeTimer]))) = attached base)"
proof (intro conjI allI impI)
  show "pushes (snd (ExecutionState_dispose s)) = pushes (snd s) @ [(cellHandle (fst s), [])]"
    by (simp add: ExecutionState_dispose_def Let_def delta_pushes)
  show "attached (snd (ExecutionState_dispose s)) =
          filter (\<lambda>e. fst e \<notin> set (currentItemIds (fst s))) (attached (snd s))"
    by (simp add: ExecutionState_dispose_def Let_def delta_empty_attached)
  show "clearExecutingStateTimer (fst (ExecutionState_dispose s)) = None"
    by (simp add: ExecutionState_dispose_def Let_def)
  show "ExecutionState_step (ExecutionState_dispose s) ev = ExecutionState_dispose s"
    if "ev \<noteq> Dispose" for ev
    using that by (rule ExecutionState_after_dispose)
  show "attached (snd (ExecutionState_run (ExecutionState_new h now rs md base)
                         (evs @ [Dispose]))) = attached base"
    if "\<forall>e \<in> set (attached base). fst e < nextId base"
    using that by (rule ExecutionState_disposed_run)
  show "pushes (snd (Timer_dispose t)) = pushes (snd t) @ [(cellHandle (fst t), [])]"
    by (simp add: Timer_dispose_def Let_def delta_pushes)
  show "attached (snd (Timer_dispose t)) =
          filter (\<lambda>e. fst e \<notin> set (currentItemIds (fst t))) (attached (snd t))"
    by (simp add: Timer_dispose_def Let_def delta_empty_attached)
  show "scheduler (fst (Timer_dispose t)) = None"
    by (simp add: Timer_dispose_def Let_def)
  show "cancelled d" if "deferredUpdate (fst (Timer_dispose t)) = Some d" for d
    using that by (auto simp: Timer_dispose_def Let_def)
  show "Timer_step svc (Timer_dispose t) ev = Timer_dispose t" if "ev \<noteq> DisposeTimer" for ev
    using that by (rule Timer_after_dispose)
  show "attached (snd (Timer_run svc (Timer_new svc verbose h now rs md base)
                         (tevs @ [DisposeTimer]))) = attached base"
    if "\<forall>e \<in> set (attached base). fst e < nextId base"
    using that by (rule Timer_disposed_run)
qed

theorem dispose_clears_items_witness:
  "(ExecutionState_step
       (ExecutionState_dispose
          (ExecutionState_run
                (ExecutionState_new 7 0 (Some executing) noMetadata emptyStore)
                [Notified 100 None noMetadata]))
       (ClearTimerDue 500 None noMetadata)
     = ExecutionState_dispose
         (ExecutionState_run
                (ExecutionState_new 7 0 (Some executing) noMetadata emptyStore)
                [Notified 100 None noMetadata]))
   \<and> (Timer_step sampleServices
       (Timer_dispose
          (Timer_run sampleServices
                (Timer_new sampleServices False 7 0 (Some executing)
                   (noMetadata\<lparr>runStartTime := Some 0\<rparr>) emptyStore)
                [MetadataChanged 50 (Some paused) (noMetadata\<lparr>runStartTime := Some 0\<rparr>)]))
       (DeferredUpdateDue 250)
     = Timer_dispose
         (Timer_run sampleServices
                (Timer_new sampleServices False 7 0 (Some executing)
                   (noMetadata\<lparr>runStartTime := Some 0\<rparr>) emptyStore)
                [MetadataChanged 50 (Some paused) (noMetadata\<lparr>runStartTime := Some 0\<rparr>)]))
   \<and> attached (snd (ExecutionState_run
                    (ExecutionState_new 7 0 (Some executing) noMetadata emptyStore)
                    ([Notified 100 None noMetadata] @ [Dispose]))) = []
   \<and> clearExecutingStateTimer
        (fst (ExecutionState_run
                (ExecutionState_new 7 0 (Some executing) noMetadata emptyStore)
                [Notified 100 None noMetadata])) = Some 500
   \<and> map fst (attached (snd (ExecutionState_run
                (ExecutionState_new 7 0 (Some executing) noMetadata emptyStore)
                [Notified 100 None noMetadata]))) = [0]
   \<and> attached (snd (Timer_run sampleServices
                       (Timer_new sampleServices False 7 0 (Some executing)
                          (noMetadata\<lparr>runStartTime := Some 0\<rparr>) emptyStore)
                       ([MetadataChanged 50 (Some paused) (noMetadata\<lparr>runStartTime := Some 0\<rparr>)]
                        @ [DisposeTimer]))) = []
   \<and> map_option due
        (deferredUpdate
           (fst (Timer_run sampleServices
                   (Timer_new sampleServices False 7 0 (Some executing)
                      (noMetadata\<lparr>runStartTime := Some 0\<rparr>) emptyStore)
                   [MetadataChanged 50 (Some paused) (noMetadata\<lparr>runStartTime := Some 0\<rparr>)])))
      = Some 250"
proof -
  have timer_inert: "ExecutionState_step
       (ExecutionState_dispose
          (ExecutionState_run
                (ExecutionState_new 7 0 (Some executing) noMetadata emptyStore)
                [Notified 100 None noMetadata]))
       (ClearTimerDue 500 None noMetadata)
     = ExecutionState_dispose
         (ExecutionState_run
                (ExecutionState_new 7 0 (Some executing) noMetadata emptyStore)
                [Notified 100 None noMetadata])"
    by (rule dispose_clears_items
          [THEN conjunct2, THEN conjunct2, THEN conjunct2, THEN conjunct1, THEN spec, THEN mp])
      simp
  have timeout_inert: "Timer_step sampleServices
       (Timer_dispose
          (Timer_run sampleServices
                (Timer_new sampleServices False 7 0 (Some executing)
                   (noMetadata\<lparr>runStartTime := Some 0\<rparr>) emptyStore)
                [MetadataChanged 50 (Some paused) (noMetadata\<lparr>runStartTime := Some 0\<rparr>)]))
       (DeferredUpdateDue 250)
     = Timer_dispose
         (Timer_run sampleServices
                (Timer_new sampleServices False 7 0 (Some executing)
                   (noMetadata\<lparr>runStartTime := Some 0\<rparr>) emptyStore)
                [MetadataChanged 50 (Some paused) (noMetadata\<lparr>runStartTime := Some 0\<rparr>)])"
    by (rule dispose_clears_items
          [THEN conjunct2, THEN conjunct2, THEN conjunct2, THEN conjunct2, THEN conjunct2,
           THEN conjunct2, THEN conjunct2, THEN conjunct2, THEN conjunct2, THEN conjunct1,
           THEN spec, THEN mp])
      simp
  have pending: "clearExecutingStateTimer
        (fst (ExecutionState_run
                (ExecutionState_new 7 0 (Some executing) noMetadata emptyStore)
                [Notified 100 None noMetadata])) = Some 500"
    "map fst (attached (snd (ExecutionState_run
                (ExecutionState_new 7 0 (Some executing) noMetadata emptyStore)
                [Notified 100 None noMetadata]))) = [0]"
    by (simp_all add: ExecutionState_run_def ExecutionState_new_def ExecutionState_update_def
          getItemsForCell_def getItemForState_def deltaCellStatusBarItems_def
          disposableTimeout_def MIN_SPINNER_TIME_def executing_def noMetadata_def
          emptyStore_def)
  have grace: "map_option due
        (deferredUpdate
           (fst (Timer_run sampleServices
                   (Timer_new sampleServices False 7 0 (Some executing)
                      (noMetadata\<lparr>runStartTime := Some 0\<rparr>) emptyStore)
                   [MetadataChanged 50 (Some paused) (noMetadata\<lparr>runStartTime := Some 0\<rparr>)])))
      = Some 250"
    by (simp add: Timer_run_def Timer_new_def Timer_update_def timerItemForCell_def
          deltaCellStatusBarItems_def disposableTimeout_def UPDATE_TIMER_GRACE_PERIOD_def
          executing_def paused_def noMetadata_def emptyStore_def)
  
  have cleared: "attached (snd (ExecutionState_run
                    (ExecutionState_new 7 0 (Some executing) noMetadata emptyStore)
                    ([Notified 100 None noMetadata] @ [Dispose]))) = []
   \<and> clearExecutingStateTimer
        (fst (ExecutionState_run
                (ExecutionState_new 7 0 (Some executing) noMetadata emptyStore)
                [Notified 100 None noMetadata])) = Some 500
   \<and> map fst (attached (snd (ExecutionState_run
                (ExecutionState_new 7 0 (Some executing) noMetadata emptyStore)
                [Notified 100 None noMetadata]))) = [0]
   \<and> attached (snd (Timer_run sampleServices
                       (Timer_new sampleServices False 7 0 (Some executing)
                          (noMetadata\<lparr>runStartTime := Some 0\<rparr>) emptyStore)
                       ([MetadataChanged 50 (Some paused) (noMetadata\<lparr>runStartTime := Some 0\<rparr>)]
                        @ [DisposeTimer]))) = []
   \<and> map_option due
        (deferredUpdate
           (fst (Timer_run sampleServices
                   (Timer_new sampleServices False 7 0 (Some executing)
                      (noMetadata\<lparr>runStartTime := Some 0\<rparr>) emptyStore)
                   [MetadataChanged 50 (Some paused) (noMetadata\<lparr>runStartTime := Some 0\<rparr>)])))
      = Some 250"

    using dispose_clears_items
      [where base = emptyStore and h = 7 and now = 0 and rs = "Some executing"
         and md = noMetadata and evs = "[Notified 100 None noMetadata]"]
      dispose_clears_items
      [where base = emptyStore and h = 7 and now = 0 and rs = "Some executing"
         and md = "noMetadata\<lparr>runStartTime := Some 0\<rparr>" and svc = sampleServices
         and verbose = False
         and tevs = "[MetadataChanged 50 (Some paused) (noMetadata\<lparr>runStartTime := Some 0\<rparr>)]"]
    by (simp add: pending grace) (simp add: emptyStore_def)
  show ?thesis
    by (rule conjI [OF timer_inert conjI [OF timeout_inert cleared]])
qed

subsection \<open>The grace period of the timer indicator\<close>

lemma deferredUpdate_callback_pushes:
  "pushes (snd (deferredUpdate_callback s)) = pushes (snd s) @ [(cellHandle (fst s), [])]"
  "deferredUpdate (fst (deferredUpdate_callback s)) = None"
  by (simp_all add: deferredUpdate_callback_def case_prod_beta delta_pushes)

lemma Timer_update_within_grace:
  assumes "rs \<noteq> None" "fst (timerItemForCell svc False now rs md) = None"
    and "deferredUpdate (fst s) \<noteq> None"
  shows "Timer_update svc now rs md s = s"
proof -
  have "fst (timerItemForCell svc (isVerbose (fst s)) now rs md) = None"
    using assms(2) timerItemForCell_verbose by blast
  then show ?thesis
    using assms(1) by (simp add: Timer_update_waits assms(3))
qed

lemma Timer_step_within_grace:
  assumes "withinGrace svc t0 ev"
    and "\<not> isDisposed (fst s)"
    and "deferredUpdate (fst s) =
           Some \<lparr>due = t0 + UPDATE_TIMER_GRACE_PERIOD, cancelled = False\<rparr>"
  shows "snd (Timer_step svc s ev) = snd s
         \<and> \<not> isDisposed (fst (Timer_step svc s ev))
         \<and> deferredUpdate (fst (Timer_step svc s ev)) = deferredUpdate (fst s)
         \<and> cellHandle (fst (Timer_step svc s ev)) = cellHandle (fst s)"
proof (cases ev)
  case (MetadataChanged now rs md)
  then have "Timer_step svc s ev = s"
    using assms by (simp add: Timer_update_within_grace)
  then show ?thesis
    using assms(2) by simp
next
  case (ConfigurationChanged verbose now rs md)
  then have "Timer_step svc s ev = ((fst s)\<lparr>isVerbose := verbose\<rparr>, snd s)"
    using assms by (simp add: Timer_update_within_grace)
  then show ?thesis
    using assms(2) by simp
next
  case (SchedulerDue now rs md)
  have "scheduler_callback svc now rs md s = ((fst s)\<lparr>scheduler := None\<rparr>, snd s)"
    using assms SchedulerDue
    by (simp add: scheduler_callback_def Timer_update_within_grace)
  then show ?thesis
    using assms(2) SchedulerDue by (simp split: option.splits)
next
  case (DeferredUpdateDue now)
  then show ?thesis
    using assms by simp
next
  case DisposeTimer
  then show ?thesis
    using assms(1) by simp
qed

lemma Timer_run_within_grace:
  assumes "\<forall>ev \<in> set evs. withinGrace svc t0 ev"
    and "\<not> isDisposed (fst s)"
    and "deferredUpdate (fst s) =
           Some \<lparr>due = t0 + UPDATE_TIMER_GRACE_PERIOD, cancelled = False\<rparr>"
  shows "snd (Timer_run svc s evs) = snd s
         \<and> \<not> isDisposed (fst (Timer_run svc s evs))
         \<and> deferredUpdate (fst (Timer_run svc s evs)) = deferredUpdate (fst s)
         \<and> cellHandle (fst (Timer_run svc s evs)) = cellHandle (fst s)"
  using assms
proof (induction evs arbitrary: s)
  case Nil
  then show ?case
    by (simp add: Timer_run_def)
next
  case (Cons ev evs)
  have step: "snd (Timer_step svc s ev) = snd s
         \<and> \<not> isDisposed (fst (Timer_step svc s ev))
         \<and> deferredUpdate (fst (Timer_step svc s ev)) = deferredUpdate (fst s)
         \<and> cellHandle (fst (Timer_step svc s ev)) = cellHandle (fst s)"
    using Cons.prems by (intro Timer_step_within_grace) simp_all
  have rest: "snd (Timer_run svc (Timer_step svc s ev) evs) = snd (Timer_step svc s ev)
         \<and> \<not> isDisposed (fst (Timer_run svc (Timer_step svc s ev) evs))
         \<and> deferredUpdate (fst (Timer_run svc (Timer_step svc s ev) evs))
             = deferredUpdate (fst (Timer_step svc s ev))
         \<and> cellHandle (fst (Timer_run svc (Timer_step svc s ev) evs))
             = cellHandle (fst (Timer_step svc s ev))"
    using Cons.prems step by (intro Cons.IH) simp_all
  have "Timer_run svc s (ev # evs) = Timer_run svc (Timer_step svc s ev) evs"
    by (simp add: Timer_run_def)
  then show ?case
    using step rest by simp
qed

lemma grace_period_absorbs:
  assumes live: "\<not> isDisposed (fst s)" and idle: "deferredUpdate (fst s) = None"
    and first: "rs0 \<noteq> None" "fst (timerItemForCell svc False t0 rs0 md0) = None"
    and during: "\<forall>ev \<in> set evs. withinGrace svc t0 ev"
    and again: "fst (timerItemForCell svc False t1 rs1 md1) \<noteq> None"
  shows "\<exists>item. pushes (snd (Timer_run svc s
                     (MetadataChanged t0 rs0 md0 # evs @ [MetadataChanged t1 rs1 md1])))
                 = pushes (snd s) @ [(cellHandle (fst s), [item])]"
    and "deferredUpdate (fst (Timer_run svc s
                     (MetadataChanged t0 rs0 md0 # evs @ [MetadataChanged t1 rs1 md1]))) = None"
proof -
  define a where "a = Timer_step svc s (MetadataChanged t0 rs0 md0)"
  define b where "b = Timer_run svc a evs"
  have "fst (timerItemForCell svc (isVerbose (fst s)) t0 rs0 md0) = None"
    using first(2) timerItemForCell_verbose by blast
  then have a: "a = ((fst s)\<lparr>deferredUpdate :=
                     Some \<lparr>due = t0 + UPDATE_TIMER_GRACE_PERIOD, cancelled = False\<rparr>\<rparr>, snd s)"
    using live idle first(1) by (simp add: a_def Timer_update_waits)
  have "snd (Timer_run svc a evs) = snd a \<and> \<not> isDisposed (fst (Timer_run svc a evs))
          \<and> deferredUpdate (fst (Timer_run svc a evs)) = deferredUpdate (fst a)
          \<and> cellHandle (fst (Timer_run svc a evs)) = cellHandle (fst a)"
    using during live by (intro Timer_run_within_grace) (simp_all add: a)
  then have b: "snd b = snd s" "\<not> isDisposed (fst b)" "cellHandle (fst b) = cellHandle (fst s)"
    by (simp_all add: b_def a)
  have whole: "Timer_run svc s (MetadataChanged t0 rs0 md0 # evs @ [MetadataChanged t1 rs1 md1])
                 = Timer_update svc t1 rs1 md1 b"
    using b(2) by (simp add: Timer_run_def b_def a_def)
  have item: "fst (timerItemForCell svc (isVerbose (fst b)) t1 rs1 md1) \<noteq> None"
    using again timerItemForCell_verbose [of svc False t1 rs1 md1 "isVerbose (fst b)"]
    by simp
  then obtain i where i: "fst (timerItemForCell svc (isVerbose (fst b)) t1 rs1 md1) = Some i"
    by blast
  have "pushes (snd (Timer_update svc t1 rs1 md1 b)) = pushes (snd s) @ [(cellHandle (fst s), [i])]"
    using Timer_update_pushes(4) [of rs1 svc b t1 md1] item by (simp add: i b)
  then show "\<exists>item. pushes (snd (Timer_run svc s
                     (MetadataChanged t0 rs0 md0 # evs @ [MetadataChanged t1 rs1 md1])))
                 = pushes (snd s) @ [(cellHandle (fst s), [item])]"
    unfolding whole by blast
  show "deferredUpdate (fst (Timer_run svc s
                     (MetadataChanged t0 rs0 md0 # evs @ [MetadataChanged t1 rs1 md1]))) = None"
    unfolding whole using item by (intro Timer_update_pushes(1)) simp
qed

text \<open>
  C2. When \<^verbatim>\<open>_update\<close> computes no item while a run-state object exists, nothing is pushed:
  the store and the session's tokens stay as they are, and a timeout of 200ms is created
  unless one is already held. Only the callback of that timeout pushes the empty list. In
  every other case (an item is there, or there is no run state) the timeout held is
  cancelled and the items are pushed at once. So, when an update that computes no item
  under a run state is followed, before the timeout can run, only by more such updates
  and then by an update that computes an item, the one push made is that of the item:
  the empty list is never pushed, and the timeout, cancelled, never runs.
\<close>

theorem grace_period_policy:
  "(rs \<noteq> None \<and> fst (timerItemForCell svc (isVerbose (fst s)) now rs md) = None \<longrightarrow>
      Timer_update svc now rs md s =
        (if deferredUpdate (fst s) = None
         then (fst s)\<lparr>deferredUpdate := Some \<lparr>due = now + 200, cancelled = False\<rparr>\<rparr>
         else fst s,
         snd s))
   \<and> (rs = None \<or> fst (timerItemForCell svc (isVerbose (fst s)) now rs md) \<noteq> None \<longrightarrow>
        deferredUpdate (fst (Timer_update svc now rs md s)) = None
        \<and> pushes (snd (Timer_update svc now rs md s)) =
            pushes (snd s)
            @ [(cellHandle (fst s),
                case fst (timerItemForCell svc (isVerbose (fst s)) now rs md) of
                  None \<Rightarrow> [] | Some i \<Rightarrow> [i])])
   \<and> pushes (snd (deferredUpdate_callback s)) = pushes (snd s) @ [(cellHandle (fst s), [])]
   \<and> deferredUpdate (fst (deferredUpdate_callback s)) = None
   \<and> (\<not> isDisposed (fst s) \<and> deferredUpdate (fst s) = None
        \<and> rs0 \<noteq> None \<and> fst (timerItemForCell svc False t0 rs0 md0) = None
        \<and> (\<forall>ev \<in> set evs. withinGrace svc t0 ev)
        \<and> fst (timerItemForCell svc False t1 rs1 md1) \<noteq> None \<longrightarrow>
        (\<exists>item. pushes (snd (Timer_run svc s
                     (MetadataChanged t0 rs0 md0 # evs @ [MetadataChanged t1 rs1 md1])))
                 = pushes (snd s) @ [(cellHandle (fst s), [item])])
        \<and> deferredUpdate (fst (Timer_run svc s
                     (MetadataChanged t0 rs0 md0 # evs @ [MetadataChanged t1 rs1 md1]))) = None
        \<and> (\<forall>t. Timer_step svc
                   (Timer_run svc s
                      (MetadataChanged t0 rs0 md0 # evs @ [MetadataChanged t1 rs1 md1]))
                   (DeferredUpdateDue t)
                 = Timer_run svc s
                     (MetadataChanged t0 rs0 md0 # evs @ [MetadataChanged t1 rs1 md1])))"
proof (intro conjI impI allI)
  assume "rs \<noteq> None \<and> fst (timerItemForCell svc (isVerbose (fst s)) now rs md) = None"
  then show "Timer_update svc now rs md s =
        (if deferredUpdate (fst s) = None
         then (fst s)\<lparr>deferredUpdate := Some \<lparr>due = now + 200, cancelled = False\<rparr>\<rparr>
         else fst s,
         snd s)"
    using Timer_update_waits [of rs svc s now md] by (simp add: UPDATE_TIMER_GRACE_PERIOD_def)
next
  assume pushed: "rs = None \<or> fst (timerItemForCell svc (isVerbose (fst s)) now rs md) \<noteq> None"
  show "deferredUpdate (fst (Timer_update svc now rs md s)) = None"
    using pushed by (rule Timer_update_pushes(1))
  show "pushes (snd (Timer_update svc now rs md s)) =
            pushes (snd s)
            @ [(cellHandle (fst s),
                case fst (timerItemForCell svc (isVerbose (fst s)) now rs md) of
                  None \<Rightarrow> [] | Some i \<Rightarrow> [i])]"
    using pushed by (rule Timer_update_pushes(4))
next
  show "pushes (snd (deferredUpdate_callback s)) = pushes (snd s) @ [(cellHandle (fst s), [])]"
    "deferredUpdate (fst (deferredUpdate_callback s)) = None"
    by (rule deferredUpdate_callback_pushes)+
next
  assume flap: "\<not> isDisposed (fst s) \<and> deferredUpdate (fst s) = None
        \<and> rs0 \<noteq> None \<and> fst (timerItemForCell svc False t0 rs0 md0) = None
        \<and> (\<forall>ev \<in> set evs. withinGrace svc t0 ev)
        \<and> fst (timerItemForCell svc False t1 rs1 md1) \<noteq> None"
  show "\<exists>item. pushes (snd (Timer_run svc s
                     (MetadataChanged t0 rs0 md0 # evs @ [MetadataChanged t1 rs1 md1])))
                 = pushes (snd s) @ [(cellHandle (fst s), [item])]"
    using flap by (intro grace_period_absorbs(1)) simp_all
  show cancelled: "deferredUpdate (fst (Timer_run svc s
                     (MetadataChanged t0 rs0 md0 # evs @ [MetadataChanged t1 rs1 md1]))) = None"
    using flap by (intro grace_period_absorbs(2)) simp_all
  show "Timer_step svc
          (Timer_run svc s (MetadataChanged t0 rs0 md0 # evs @ [MetadataChanged t1 rs1 md1]))
          (DeferredUpdateDue t)
        = Timer_run svc s (MetadataChanged t0 rs0 md0 # evs @ [MetadataChanged t1 rs1 md1])"
    for t
    using cancelled by simp
qed

theorem grace_period_policy_witness:
  "Timer_update sampleServices 1000 (Some paused) (noMetadata\<lparr>runStartTime := Some 0\<rparr>)
       (\<lparr>cellHandle = 7, currentItemIds = [], isDisposed = False, scheduler = None,
         deferredUpdate = None, isVerbose = False\<rparr>, emptyStore)
     = (\<lparr>cellHandle = 7, currentItemIds = [], isDisposed = False, scheduler = None,
         deferredUpdate = Some \<lparr>due = 1200, cancelled = False\<rparr>, isVerbose = False\<rparr>,
        emptyStore)
   \<and> deferredUpdate
       (fst (Timer_update sampleServices 1190 (Some executing)
               (noMetadata\<lparr>runStartTime := Some 0\<rparr>)
               (\<lparr>cellHandle = 7, currentItemIds = [], isDisposed = False, scheduler = None,
                 deferredUpdate = Some \<lparr>due = 1200, cancelled = False\<rparr>,
                 isVerbose = False\<rparr>, emptyStore)))
     = None
   \<and> (\<exists>item. pushes (snd (Timer_run sampleServices
        (\<lparr>cellHandle = 7, currentItemIds = [], isDisposed = False, scheduler = None,
          deferredUpdate = None, isVerbose = False\<rparr>, emptyStore)
        [MetadataChanged 1000 (Some paused) (noMetadata\<lparr>runStartTime := Some 0\<rparr>),
         SchedulerDue 1100 (Some paused) (noMetadata\<lparr>runStartTime := Some 0\<rparr>),
         DeferredUpdateDue 1150,
         MetadataChanged 1190 (Some executing) (noMetadata\<lparr>runStartTime := Some 0\<rparr>)]))
      = [(7, [item])])
   \<and> deferredUpdate (fst (Timer_run sampleServices
        (\<lparr>cellHandle = 7, currentItemIds = [], isDisposed = False, scheduler = None,
          deferredUpdate = None, isVerbose = False\<rparr>, emptyStore)
        [MetadataChanged 1000 (Some paused) (noMetadata\<lparr>runStartTime := Some 0\<rparr>),
         SchedulerDue 1100 (Some paused) (noMetadata\<lparr>runStartTime := Some 0\<rparr>),
         DeferredUpdateDue 1150,
         MetadataChanged 1190 (Some executing) (noMetadata\<lparr>runStartTime := Some 0\<rparr>)]))
      = None"
proof -
  have waits: "Timer_update sampleServices 1000 (Some paused) (noMetadata\<lparr>runStartTime := Some 0\<rparr>)
       (\<lparr>cellHandle = 7, currentItemIds = [], isDisposed = False, scheduler = None,
         deferredUpdate = None, isVerbose = False\<rparr>, emptyStore)
     = (\<lparr>cellHandle = 7, currentItemIds = [], isDisposed = False, scheduler = None,
         deferredUpdate = Some \<lparr>due = 1200, cancelled = False\<rparr>, isVerbose = False\<rparr>,
        emptyStore)"
    using grace_period_policy
      [of "Some paused" sampleServices
         "(\<lparr>cellHandle = 7, currentItemIds = [], isDisposed = False, scheduler = None,
            deferredUpdate = None, isVerbose = False\<rparr>, emptyStore)"
         1000 "noMetadata\<lparr>runStartTime := Some 0\<rparr>", THEN conjunct1]
    by (simp add: timerItemForCell_def paused_def)
  have pushed: "deferredUpdate
       (fst (Timer_update sampleServices 1190 (Some executing)
               (noMetadata\<lparr>runStartTime := Some 0\<rparr>)
               (\<lparr>cellHandle = 7, currentItemIds = [], isDisposed = False, scheduler = None,
                 deferredUpdate = Some \<lparr>due = 1200, cancelled = False\<rparr>,
                 isVerbose = False\<rparr>, emptyStore)))
     = None"
    using grace_period_policy
      [of "Some executing" sampleServices
         "(\<lparr>cellHandle = 7, currentItemIds = [], isDisposed = False, scheduler = None,
            deferredUpdate = Some \<lparr>due = 1200, cancelled = False\<rparr>,
            isVerbose = False\<rparr>, emptyStore)"
         1190 "noMetadata\<lparr>runStartTime := Some 0\<rparr>", THEN conjunct2, THEN conjunct1]
    by (simp add: timerItemForCell_def executing_def noMetadata_def)
  show ?thesis
    using grace_period_policy
      [of _ sampleServices
         "(\<lparr>cellHandle = 7, currentItemIds = [], isDisposed = False, scheduler = None,
            deferredUpdate = None, isVerbose = False\<rparr>, emptyStore)"
         _ _ "Some paused" 1000 "noMetadata\<lparr>runStartTime := Some 0\<rparr>"
         "[SchedulerDue 1100 (Some paused) (noMetadata\<lparr>runStartTime := Some 0\<rparr>),
           DeferredUpdateDue 1150]"
         1190 "Some executing" "noMetadata\<lparr>runStartTime := Some 0\<rparr>",
       THEN conjunct2, THEN conjunct2, THEN conjunct2, THEN conjunct2]
    unfolding waits pushed
    by (simp add: timerItemForCell_def paused_def executing_def noMetadata_def emptyStore_def
          UPDATE_TIMER_GRACE_PERIOD_def)
qed

subsection \<open>The minimum display time of the spinner\<close>

lemma getItemsForCell_hold:
  assumes "showedExecutingStateTime this = Some showed"
    and "map_option state rs \<noteq> Some Executing"
    and "now - showed < MIN_SPINNER_TIME"
  shows "getItemsForCell now rs md this =
           (None,
            if clearExecutingStateTimer this = None
            then this\<lparr>clearExecutingStateTimer := Some (showed + MIN_SPINNER_TIME)\<rparr>
            else this)"
  using assms by (auto simp: getItemsForCell_def disposableTimeout_def Let_def)

lemma getItemsForCell_elapsed:
  assumes "showedExecutingStateTime this = Some showed"
    and "map_option state rs \<noteq> Some Executing"
    and "MIN_SPINNER_TIME \<le> now - showed"
  shows "getItemsForCell now rs md this =
           (Some (getItemForState rs md), this\<lparr>showedExecutingStateTime := None\<rparr>)"
  using assms by (auto simp: getItemsForCell_def Let_def)

lemma getItemsForCell_start:
  assumes "showedExecutingStateTime this = None" and "map_option state rs = Some Executing"
  shows "getItemsForCell now rs md this =
           (Some (getItemForState rs md), this\<lparr>showedExecutingStateTime := Some now\<rparr>)"
  using assms by (auto simp: getItemsForCell_def Let_def)

lemma getItemsForCell_idle:
  assumes "showedExecutingStateTime this = None" and "map_option state rs \<noteq> Some Executing"
  shows "getItemsForCell now rs md this = (Some (getItemForState rs md), this)"
  using assms by (auto simp: getItemsForCell_def Let_def)

lemma ExecutionState_update_hold:
  assumes "showedExecutingStateTime (fst s) = Some showed"
    and "map_option state rs \<noteq> Some Executing"
    and "now - showed < MIN_SPINNER_TIME"
  shows "ExecutionState_update now rs md s =
           (if clearExecutingStateTimer (fst s) = None
            then (fst s)\<lparr>clearExecutingStateTimer := Some (showed + MIN_SPINNER_TIME)\<rparr>
            else fst s,
            snd s)"
  by (simp add: ExecutionState_update_def getItemsForCell_hold [OF assms])

lemma ExecutionState_update_start:
  assumes "showedExecutingStateTime (fst s) = None"
    and "map_option state rs = Some Executing"
  shows "ExecutionState_update now rs md s =
           (let d = deltaCellStatusBarItems (currentItemIds (fst s)) (cellHandle (fst s))
                      (getItemForState rs md) (snd s)
            in ((fst s)\<lparr>showedExecutingStateTime := Some now, currentItemIds := fst d\<rparr>,
                snd d))"
  by (simp add: ExecutionState_update_def getItemsForCell_start [OF assms] case_prod_beta
        Let_def)

lemma clearExecutingStateTimer_callback_clears:
  assumes "map_option state rs \<noteq> Some Executing"
  shows "clearExecutingStateTimer_callback now rs md s =
           (let d = deltaCellStatusBarItems (currentItemIds (fst s)) (cellHandle (fst s))
                      (getItemForState rs md) (snd s)
            in ((fst s)\<lparr>showedExecutingStateTime := None, clearExecutingStateTimer := None,
                        currentItemIds := fst d\<rparr>,
                snd d))"
  using assms
  by (simp add: clearExecutingStateTimer_callback_def ExecutionState_update_def
        getItemsForCell_idle case_prod_beta Let_def)

lemma ExecutionState_step_within_hold:
  assumes "withinHold t0 ev"
    and "\<not> isDisposed (fst s)"
    and "showedExecutingStateTime (fst s) = Some t0"
    and "clearExecutingStateTimer (fst s) = Some (t0 + MIN_SPINNER_TIME)"
  shows "ExecutionState_step s ev = s"
proof (cases ev)
  case (Notified now rs md)
  then have "map_option state rs \<noteq> Some Executing" "now - t0 < MIN_SPINNER_TIME"
    using assms(1) by simp_all
  then have "ExecutionState_update now rs md s = s"
    using assms(3,4) by (simp add: ExecutionState_update_hold [of s t0])
  then show ?thesis
    using Notified assms(2) by simp
next
  case (ClearTimerDue now rs md)
  then show ?thesis
    using assms(1,4) by simp
next
  case Dispose
  then show ?thesis
    using assms(1) by simp
qed

lemma ExecutionState_run_within_hold:
  assumes "\<forall>ev \<in> set evs. withinHold t0 ev"
    and "\<not> isDisposed (fst s)"
    and "showedExecutingStateTime (fst s) = Some t0"
    and "clearExecutingStateTimer (fst s) = Some (t0 + MIN_SPINNER_TIME)"
  shows "ExecutionState_run s evs = s"
  using assms(1)
proof (induction evs)
  case Nil
  then show ?case
    by (simp add: ExecutionState_run_def)
next
  case (Cons ev evs)
  then have "ExecutionState_step s ev = s"
    using assms(2,3,4) by (intro ExecutionState_step_within_hold [of t0]) simp_all
  then show ?case
    using Cons by (simp add: ExecutionState_run_def)
qed

text \<open>
  A session that holds no clear-timer when the spinner is shown (a newly constructed one,
  for instance) keeps the spinner for the minimum time: when the execution is found ended
  less than \<^verbatim>\<open>MIN_SPINNER_TIME\<close> later, the spinner stays the last thing pushed through all
  further notifications until the timer runs, and the timer makes the one push that
  replaces it.
\<close>

lemma spinner_held_then_cleared:
  assumes live: "\<not> isDisposed (fst s)"
    and fresh: "showedExecutingStateTime (fst s) = None" "clearExecutingStateTimer (fst s) = None"
    and started: "state r = Executing"
    and ended: "map_option state rs1 \<noteq> Some Executing" "t1 - t0 < MIN_SPINNER_TIME"
    and during: "\<forall>ev \<in> set evs. withinHold t0 ev"
    and due: "t0 + MIN_SPINNER_TIME \<le> t2"
    and still: "map_option state rs2 \<noteq> Some Executing"
  shows "pushes (snd (ExecutionState_run s
                        (Notified t0 (Some r) md0 # Notified t1 rs1 md1 # evs)))
           = pushes (snd s) @ [(cellHandle (fst s), getItemForState (Some r) md0)]"
    and "clearExecutingStateTimer
           (fst (ExecutionState_run s (Notified t0 (Some r) md0 # Notified t1 rs1 md1 # evs)))
           = Some (t0 + MIN_SPINNER_TIME)"
    and "pushes (snd (ExecutionState_run s
                        (Notified t0 (Some r) md0 # Notified t1 rs1 md1 # evs
                         @ [ClearTimerDue t2 rs2 md2])))
           = pushes (snd s) @ [(cellHandle (fst s), getItemForState (Some r) md0),
                               (cellHandle (fst s), getItemForState rs2 md2)]"
    and "showedExecutingStateTime
           (fst (ExecutionState_run s
                   (Notified t0 (Some r) md0 # Notified t1 rs1 md1 # evs
                    @ [ClearTimerDue t2 rs2 md2]))) = None"
    and "clearExecutingStateTimer
           (fst (ExecutionState_run s
                   (Notified t0 (Some r) md0 # Notified t1 rs1 md1 # evs
                    @ [ClearTimerDue t2 rs2 md2]))) = None"
proof -
  define a where "a = ExecutionState_update t0 (Some r) md0 s"
  define b where "b = ExecutionState_update t1 rs1 md1 a"
  have a: "a = (let d = deltaCellStatusBarItems (currentItemIds (fst s)) (cellHandle (fst s))
                          (getItemForState (Some r) md0) (snd s)
                in ((fst s)\<lparr>showedExecutingStateTime := Some t0, currentItemIds := fst d\<rparr>,
                    snd d))"
    unfolding a_def using fresh(1) started by (intro ExecutionState_update_start) simp_all
  have a_fields: "showedExecutingStateTime (fst a) = Some t0"
    "clearExecutingStateTimer (fst a) = None" "\<not> isDisposed (fst a)"
    "cellHandle (fst a) = cellHandle (fst s)"
    "pushes (snd a) = pushes (snd s) @ [(cellHandle (fst s), getItemForState (Some r) md0)]"
    using fresh(2) live by (simp_all add: a Let_def delta_pushes)
  have b: "b = ((fst a)\<lparr>clearExecutingStateTimer := Some (t0 + MIN_SPINNER_TIME)\<rparr>, snd a)"
    unfolding b_def using a_fields(1,2) ended
    by (simp add: ExecutionState_update_hold [of a t0])
  have b_fields: "showedExecutingStateTime (fst b) = Some t0"
    "clearExecutingStateTimer (fst b) = Some (t0 + MIN_SPINNER_TIME)" "\<not> isDisposed (fst b)"
    "cellHandle (fst b) = cellHandle (fst s)"
    "pushes (snd b) = pushes (snd s) @ [(cellHandle (fst s), getItemForState (Some r) md0)]"
    using a_fields by (simp_all add: b)
  have held: "ExecutionState_run b evs = b"
    using during b_fields(3,1,2) by (rule ExecutionState_run_within_hold)
  have first: "ExecutionState_run s (Notified t0 (Some r) md0 # Notified t1 rs1 md1 # evs) = b"
    using held live a_fields(3) by (simp add: ExecutionState_run_def a_def b_def)
  show "pushes (snd (ExecutionState_run s
                        (Notified t0 (Some r) md0 # Notified t1 rs1 md1 # evs)))
           = pushes (snd s) @ [(cellHandle (fst s), getItemForState (Some r) md0)]"
    "clearExecutingStateTimer
           (fst (ExecutionState_run s (Notified t0 (Some r) md0 # Notified t1 rs1 md1 # evs)))
           = Some (t0 + MIN_SPINNER_TIME)"
    by (simp_all add: first b_fields)
  have "ExecutionState_run s (Notified t0 (Some r) md0 # Notified t1 rs1 md1 # evs
                               @ [ClearTimerDue t2 rs2 md2])
          = ExecutionState_step b (ClearTimerDue t2 rs2 md2)"
    using first by (simp add: ExecutionState_run_def)
  also have "\<dots> = clearExecutingStateTimer_callback t2 rs2 md2 b"
    using b_fields(2) due by simp
  finally have last: "ExecutionState_run s (Notified t0 (Some r) md0 # Notified t1 rs1 md1 # evs
                               @ [ClearTimerDue t2 rs2 md2])
          = (let d = deltaCellStatusBarItems (currentItemIds (fst b)) (cellHandle (fst b))
                      (getItemForState rs2 md2) (snd b)
            in ((fst b)\<lparr>showedExecutingStateTime := None, clearExecutingStateTimer := None,
                        currentItemIds := fst d\<rparr>,
                snd d))"
    using still by (simp add: clearExecutingStateTimer_callback_clears)
  show "pushes (snd (ExecutionState_run s
                        (Notified t0 (Some r) md0 # Notified t1 rs1 md1 # evs
                         @ [ClearTimerDue t2 rs2 md2])))
           = pushes (snd s) @ [(cellHandle (fst s), getItemForState (Some r) md0),
                               (cellHandle (fst s), getItemForState rs2 md2)]"
    "showedExecutingStateTime
           (fst (ExecutionState_run s
                   (Notified t0 (Some r) md0 # Notified t1 rs1 md1 # evs
                    @ [ClearTimerDue t2 rs2 md2]))) = None"
    "clearExecutingStateTimer
           (fst (ExecutionState_run s
                   (Notified t0 (Some r) md0 # Notified t1 rs1 md1 # evs
                    @ [ClearTimerDue t2 rs2 md2]))) = None"
    by (simp_all add: last Let_def delta_pushes b_fields)
qed

text \<open>
  C1. The minimum display time is not kept in every run. When \<^verbatim>\<open>MIN_SPINNER_TIME\<close> has
  elapsed, \<^verbatim>\<open>_getItemsForCell\<close> clears the display-start time and leaves the clear-timer as
  it is, whereas the timer's callback clears both. A clear-timer that has not run yet
  when a notification finds the time elapsed therefore stays pending beside an unset
  display-start time, and the next spinner finds it there: when that execution ends, no
  timer is created, because one is held, and the old timer, long due, replaces the
  spinner as soon as it runs. In the run below the session is constructed at 0 while the
  cell executes; the execution is found ended at 100, where a timer due at 500 is
  created, and again at 600, before that timer has run. A spinner is shown at 610 and its
  execution is found ended at 620: nothing is pushed and the timer held is still the one
  due at 500. Run at 620, it replaces the spinner with the success item, 10ms after the
  spinner was shown.
\<close>

theorem stale_clear_timer_cuts_spinner_short:
  "showedExecutingStateTime
       (fst (ExecutionState_run
               (ExecutionState_new 7 0 (Some executing) noMetadata emptyStore)
               [Notified 100 None (noMetadata\<lparr>lastRunSuccess := Some True\<rparr>),
                Notified 600 None (noMetadata\<lparr>lastRunSuccess := Some True\<rparr>)])) = None
   \<and> clearExecutingStateTimer
       (fst (ExecutionState_run
               (ExecutionState_new 7 0 (Some executing) noMetadata emptyStore)
               [Notified 100 None (noMetadata\<lparr>lastRunSuccess := Some True\<rparr>),
                Notified 600 None (noMetadata\<lparr>lastRunSuccess := Some True\<rparr>)])) = Some 500
   \<and> showedExecutingStateTime
       (fst (ExecutionState_run
               (ExecutionState_new 7 0 (Some executing) noMetadata emptyStore)
               [Notified 100 None (noMetadata\<lparr>lastRunSuccess := Some True\<rparr>),
                Notified 600 None (noMetadata\<lparr>lastRunSuccess := Some True\<rparr>),
                Notified 610 (Some executing) noMetadata])) = Some 610
   \<and> pushes
       (snd (ExecutionState_run
               (ExecutionState_new 7 0 (Some executing) noMetadata emptyStore)
               [Notified 100 None (noMetadata\<lparr>lastRunSuccess := Some True\<rparr>),
                Notified 600 None (noMetadata\<lparr>lastRunSuccess := Some True\<rparr>),
                Notified 610 (Some executing) noMetadata,
                Notified 620 None (noMetadata\<lparr>lastRunSuccess := Some True\<rparr>)]))
     = [(7, getItemForState (Some executing) noMetadata),
        (7, getItemForState None (noMetadata\<lparr>lastRunSuccess := Some True\<rparr>)),
        (7, getItemForState (Some executing) noMetadata)]
   \<and> clearExecutingStateTimer
       (fst (ExecutionState_run
               (ExecutionState_new 7 0 (Some executing) noMetadata emptyStore)
               [Notified 100 None (noMetadata\<lparr>lastRunSuccess := Some True\<rparr>),
                Notified 600 None (noMetadata\<lparr>lastRunSuccess := Some True\<rparr>),
                Notified 610 (Some executing) noMetadata,
                Notified 620 None (noMetadata\<lparr>lastRunSuccess := Some True\<rparr>)])) = Some 500
   \<and> pushes
       (snd (ExecutionState_run
               (ExecutionState_new 7 0 (Some executing) noMetadata emptyStore)
               [Notified 100 None (noMetadata\<lparr>lastRunSuccess := Some True\<rparr>),
                Notified 600 None (noMetadata\<lparr>lastRunSuccess := Some True\<rparr>),
                Notified 610 (Some executing) noMetadata,
                Notified 620 None (noMetadata\<lparr>lastRunSuccess := Some True\<rparr>),
                ClearTimerDue 620 None (noMetadata\<lparr>lastRunSuccess := Some True\<rparr>)]))
     = [(7, getItemForState (Some executing) noMetadata),
        (7, getItemForState None (noMetadata\<lparr>lastRunSuccess := Some True\<rparr>)),
        (7, getItemForState (Some executing) noMetadata),
        (7, getItemForState None (noMetadata\<lparr>lastRunSuccess := Some True\<rparr>))]
   \<and> map itemText (getItemForState (Some executing) noMetadata)
       = [IconText (ThemeIcon_modify executingStateIcon ''spin'')]
   \<and> map itemText (getItemForState None (noMetadata\<lparr>lastRunSuccess := Some True\<rparr>))
       = [IconText successStateIcon]"
  by (simp add: ExecutionState_run_def ExecutionState_new_def ExecutionState_update_def
        clearExecutingStateTimer_callback_def getItemsForCell_def getItemForState_def
        deltaCellStatusBarItems_def disposableTimeout_def MIN_SPINNER_TIME_def
        executing_def noMetadata_def emptyStore_def Let_def)

subsection \<open>The controller and the visible set\<close>

lemma dom_fold_removeCell:
  "dom (visibleCells (fold removeCell hs c)) = dom (visibleCells c) - set hs"
  by (induction hs arbitrary: c) (auto simp: removeCell_def)

lemma dom_fold_addCell:
  "dom (visibleCells (fold addCell hs c)) = dom (visibleCells c) \<union> set hs"
  by (induction hs arbitrary: c) (auto simp: addCell_def)

lemma dom_updateVisibleCells:
  "dom (visibleCells (updateVisibleCells True e c)) = visibleAfter (dom (visibleCells c)) e"
  by (simp add: updateVisibleCells_def visibleAfter_def dom_fold_addCell dom_fold_removeCell)

lemma Controller_run_dom:
  "\<forall>d \<in> set ds. fst d \<Longrightarrow> dom (visibleCells (fst s)) = snd s
     \<Longrightarrow> dom (visibleCells (fst (Controller_run s ds))) = snd (Controller_run s ds)"
proof (induction ds arbitrary: s)
  case Nil
  then show ?case
    by simp
next
  case (Cons d ds)
  obtain vm e where d: "d = (vm, e)"
    by (cases d)
  have vm
    using Cons.prems(1) d by simp
  then show ?case
    using Cons.prems Cons.IH [of "(updateVisibleCells vm e (fst s), visibleAfter (snd s) e)"]
    by (simp add: d dom_updateVisibleCells)
qed

lemma removeCell_lockstep:
  assumes "inLockstep c V"
  shows "inLockstep (removeCell h c) (V - {h})"
proof -
  have domV: "dom (visibleCells c) = V"
    and iff: "liveSessions c s' = Some h' \<longleftrightarrow> visibleCells c h' = Some s'"
    and older: "s' \<in> dom (liveSessions c) \<Longrightarrow> s' < created c" for s' h'
    using assms by (simp_all add: inLockstep_def)
  show ?thesis
  proof (cases "visibleCells c h")
    case None
    then have "h \<notin> V"
      using domV by blast
    moreover have "removeCell h c = c"
      using None by (simp add: removeCell_def fun_upd_idem_iff)
    ultimately show ?thesis
      using assms by simp
  next
    case (Some session)
    have own: "liveSessions c session = Some h"
      using Some by (simp add: iff)
    have live: "liveSessions (removeCell h c) = (liveSessions c)(session := None)"
      and map: "visibleCells (removeCell h c) = (visibleCells c)(h := None)"
      and count: "created (removeCell h c) = created c"
      using Some by (simp_all add: removeCell_def)
    show ?thesis
      unfolding inLockstep_def live map count
    proof (intro conjI allI ballI)
      show "dom ((visibleCells c)(h := None)) = V - {h}"
        using domV by simp
    next
      fix s' h'
      show "((liveSessions c)(session := None)) s' = Some h'
              \<longleftrightarrow> ((visibleCells c)(h := None)) h' = Some s'"
      proof (cases "h' = h")
        case True
        have "s' = session" if "liveSessions c s' = Some h"
          using that Some by (simp add: iff)
        then show ?thesis
          using True by auto
      next
        case False
        have "s' \<noteq> session" if "liveSessions c s' = Some h'"
          using that own False by auto
        then show ?thesis
          using False by (auto simp: iff)
      qed
    next
      fix s'
      assume "s' \<in> dom ((liveSessions c)(session := None))"
      then have "s' \<in> dom (liveSessions c)"
        by (simp add: dom_def split: if_splits)
      then show "s' < created c"
        by (rule older)
    qed
  qed
qed

lemma fold_removeCell_lockstep:
  "inLockstep c V \<Longrightarrow> inLockstep (fold removeCell hs c) (V - set hs)"
proof (induction hs arbitrary: c V)
  case Nil
  then show ?case
    by simp
next
  case (Cons h hs)
  have "inLockstep (fold removeCell hs (removeCell h c)) (V - {h} - set hs)"
    by (rule Cons.IH) (rule removeCell_lockstep [OF Cons.prems])
  moreover have "V - {h} - set hs = V - set (h # hs)"
    by auto
  ultimately show ?case
    by simp
qed

lemma addCell_lockstep:
  assumes "inLockstep c V" and "h \<notin> V"
  shows "inLockstep (addCell h c) (insert h V)"
proof -
  have fresh: "liveSessions c (created c) = None"
    using assms(1) by (force simp: inLockstep_def)
  have unused: "visibleCells c h' \<noteq> Some (created c)" for h'
    using assms(1) fresh by (auto simp: inLockstep_def)
  have absent: "visibleCells c h = None"
    using assms by (auto simp: inLockstep_def)
  have older: "s' < created c" if "liveSessions c s' = Some h'" for s' h'
    using assms(1) that by (auto simp: inLockstep_def)
  show ?thesis
    unfolding inLockstep_def
  proof (intro conjI allI ballI)
    show "dom (visibleCells (addCell h c)) = insert h V"
      using assms(1) by (auto simp: inLockstep_def addCell_def)
    show "liveSessions (addCell h c) s' = Some h'
            \<longleftrightarrow> visibleCells (addCell h c) h' = Some s'" for s' h'
      using assms(1) unused [of h'] absent
      by (auto simp: inLockstep_def addCell_def)
    show "s' < created (addCell h c)" if "s' \<in> dom (liveSessions (addCell h c))" for s'
      using that older [of s'] by (auto simp: addCell_def less_Suc_eq split: if_splits)
  qed
qed

lemma fold_addCell_lockstep:
  "inLockstep c V \<Longrightarrow> distinct hs \<Longrightarrow> set hs \<inter> V = {}
     \<Longrightarrow> inLockstep (fold addCell hs c) (V \<union> set hs)"
proof (induction hs arbitrary: c V)
  case Nil
  then show ?case
    by simp
next
  case (Cons h hs)
  have "inLockstep (addCell h c) (insert h V)"
    using Cons.prems by (intro addCell_lockstep) auto
  then have "inLockstep (fold addCell hs (addCell h c)) (insert h V \<union> set hs)"
    using Cons.prems by (intro Cons.IH) auto
  moreover have "insert h V \<union> set hs = V \<union> set (h # hs)"
    by auto
  ultimately show ?case
    by simp
qed

lemma updateVisibleCells_lockstep:
  assumes "inLockstep c V" and "distinct (added e)"
    and "set (added e) \<inter> (V - set (removed e)) = {}"
  shows "inLockstep (updateVisibleCells True e c) (visibleAfter V e)"
  unfolding updateVisibleCells_def visibleAfter_def
  using fold_addCell_lockstep [OF fold_removeCell_lockstep [OF assms(1), of "removed e"] assms(2)]
    assms(3)
  by simp

lemma Controller_run_lockstep:
  "inLockstep (fst s) (snd s) \<Longrightarrow> \<forall>d \<in> set ds. fst d \<Longrightarrow> deltasAddNew (snd s) ds
     \<Longrightarrow> inLockstep (fst (Controller_run s ds)) (snd (Controller_run s ds))"
proof (induction ds arbitrary: s)
  case Nil
  then show ?case
    by simp
next
  case (Cons d ds)
  obtain vm e where d: "d = (vm, e)"
    by (cases d)
  have vm: vm
    using Cons.prems(2) d by simp
  have "inLockstep (updateVisibleCells True e (fst s)) (visibleAfter (snd s) e)"
    using Cons.prems(1,3) d by (intro updateVisibleCells_lockstep) simp_all
  then show ?case
    using Cons.prems(2,3) vm
      Cons.IH [of "(updateVisibleCells vm e (fst s), visibleAfter (snd s) e)"]
    by (simp add: d)
qed

lemma Controller_new_lockstep:
  assumes "distinct cells"
  shows "inLockstep (Controller_new True cells) (set cells)"
proof -
  have "inLockstep \<lparr>visibleCells = Map.empty, created = 0, liveSessions = Map.empty\<rparr> {}"
    by (simp add: inLockstep_def)
  then have "inLockstep
               (updateVisibleCells True \<lparr>added = cells, removed = []\<rparr>
                  \<lparr>visibleCells = Map.empty, created = 0, liveSessions = Map.empty\<rparr>)
               (visibleAfter {} \<lparr>added = cells, removed = []\<rparr>)"
    using assms by (intro updateVisibleCells_lockstep) simp_all
  then show ?thesis
    by (simp add: Controller_new_def updateEverything_def visibleAfter_def)
qed

lemma inLockstep_sessions:
  assumes "inLockstep c V"
  shows "{h. \<exists>session. liveSessions c session = Some h} = V"
    and "\<forall>h \<in> V. \<exists>!session. liveSessions c session = Some h"
proof -
  show "{h. \<exists>session. liveSessions c session = Some h} = V"
    using assms by (auto simp: inLockstep_def)
  show "\<forall>h \<in> V. \<exists>!session. liveSessions c session = Some h"
  proof
    fix h
    assume "h \<in> V"
    then obtain session where "visibleCells c h = Some session"
      using assms by (auto simp: inLockstep_def)
    then show "\<exists>!session. liveSessions c session = Some h"
      using assms by (auto simp: inLockstep_def)
  qed
qed

lemma fold_removeCell_disposed:
  "liveSessions c session = None \<or> (\<exists>h \<in> set hs. visibleCells c h = Some session)
     \<Longrightarrow> liveSessions (fold removeCell hs c) session = None"
proof (induction hs arbitrary: c)
  case Nil
  then show ?case
    by simp
next
  case (Cons h' hs)
  from Cons.prems
  have "liveSessions c session = None \<or> visibleCells c h' = Some session
          \<or> (\<exists>h \<in> set hs. h \<noteq> h' \<and> visibleCells c h = Some session)"
    by auto
  then consider (dead) "liveSessions c session = None"
    | (first) "visibleCells c h' = Some session"
    | (later) h where "h \<in> set hs" "h \<noteq> h'" "visibleCells c h = Some session"
    by auto
  then have "liveSessions (removeCell h' c) session = None
          \<or> (\<exists>h \<in> set hs. visibleCells (removeCell h' c) h = Some session)"
  proof cases
    case dead
    then show ?thesis
      by (simp add: removeCell_def split: option.splits)
  next
    case first
    then show ?thesis
      by (simp add: removeCell_def)
  next
    case later
    then have "visibleCells (removeCell h' c) h = Some session"
      by (simp add: removeCell_def)
    then show ?thesis
      using later(1) by blast
  qed
  then show ?case
    using Cons.IH [of "removeCell h' c"] by simp
qed

lemma fold_addCell_created: "created c \<le> created (fold addCell hs c)"
proof (induction hs arbitrary: c)
  case Nil
  then show ?case
    by simp
next
  case (Cons h hs)
  have "created c \<le> created (addCell h c)"
    by (simp add: addCell_def)
  also have "\<dots> \<le> created (fold addCell hs (addCell h c))"
    by (rule Cons.IH)
  finally show ?case
    by simp
qed

lemma fold_removeCell_created: "created (fold removeCell hs c) = created c"
  by (induction hs arbitrary: c) (simp_all add: removeCell_def)

lemma fold_addCell_old:
  "session < created c \<Longrightarrow> liveSessions (fold addCell hs c) session = liveSessions c session"
proof (induction hs arbitrary: c)
  case Nil
  then show ?case
    by simp
next
  case (Cons h hs)
  have step: "liveSessions (addCell h c) session = liveSessions c session"
    using Cons.prems by (simp add: addCell_def)
  have "session < created (addCell h c)"
    using Cons.prems by (simp add: addCell_def)
  then have "liveSessions (fold addCell hs (addCell h c)) session
               = liveSessions (addCell h c) session"
    by (rule Cons.IH)
  then show ?case
    using step by simp
qed

lemma fold_addCell_other:
  "h \<notin> set hs \<Longrightarrow> visibleCells (fold addCell hs c) h = visibleCells c h"
  by (induction hs arbitrary: c) (simp_all add: addCell_def)

lemma fold_addCell_new:
  "h \<in> set hs
     \<Longrightarrow> \<exists>session. created c \<le> session
           \<and> visibleCells (fold addCell hs c) h = Some session
           \<and> liveSessions (fold addCell hs c) session = Some h"
proof (induction hs arbitrary: c)
  case Nil
  then show ?case
    by simp
next
  case (Cons h' hs)
  show ?case
  proof (cases "h \<in> set hs")
    case True
    then obtain session where "created (addCell h' c) \<le> session"
      "visibleCells (fold addCell hs (addCell h' c)) h = Some session"
      "liveSessions (fold addCell hs (addCell h' c)) session = Some h"
      using Cons.IH [of "addCell h' c"] by blast
    moreover have "created c \<le> created (addCell h' c)"
      by (simp add: addCell_def)
    ultimately show ?thesis
      by (intro exI [of _ session]) simp
  next
    case False
    then have h: "h' = h"
      using Cons.prems by simp
    have "visibleCells (fold addCell hs (addCell h c)) h = Some (created c)"
      using False by (simp add: fold_addCell_other addCell_def)
    moreover have "liveSessions (fold addCell hs (addCell h c)) (created c) = Some h"
      by (simp add: fold_addCell_old addCell_def)
    ultimately show ?thesis
      by (intro exI [of _ "created c"]) (simp add: h)
  qed
qed

text \<open>
  C6, as the claim states it, fails: a delta that arrives while the editor has no view
  model is ignored, so a cell it adds is visible and has no session, and a cell it
  removes is no longer visible and keeps its session.
\<close>

theorem visibility_lockstep_counterexample:
  "1 \<in> snd (Controller_run (Controller_new True [], {})
              [(False, \<lparr>added = [1], removed = []\<rparr>)])
   \<and> visibleCells (fst (Controller_run (Controller_new True [], {})
                           [(False, \<lparr>added = [1], removed = []\<rparr>)])) 1 = None
   \<and> dom (liveSessions (fst (Controller_run (Controller_new True [], {})
                                [(False, \<lparr>added = [1], removed = []\<rparr>)]))) = {}
   \<and> 1 \<notin> snd (Controller_run (Controller_new True [1], {1})
                [(False, \<lparr>added = [], removed = [1]\<rparr>)])
   \<and> visibleCells (fst (Controller_run (Controller_new True [1], {1})
                           [(False, \<lparr>added = [], removed = [1]\<rparr>)])) 1 = Some 0
   \<and> liveSessions (fst (Controller_run (Controller_new True [1], {1})
                           [(False, \<lparr>added = [], removed = [1]\<rparr>)])) 0 = Some 1"
  by (simp add: Controller_new_def updateEverything_def updateVisibleCells_def visibleAfter_def
        addCell_def)

text \<open>
  C6 (amended). For a controller constructed while the editor has a view model, and for
  every sequence of visibility deltas each of which is delivered while the editor has a
  view model: after every delta the handles in the map are exactly the visible set. When
  moreover every delta adds only cells that are not visible at that point, each once, as
  the deltas of the observer do, then after every delta the live sessions are exactly
  the sessions in the map, each for its own cell: the cells with a live session are the
  visible ones, and every visible cell has exactly one live session. In one delta, the
  session of every removed cell is disposed and, unless the cell is added again, its
  entry dropped, and every added cell gets a session constructed by this delta.
\<close>

theorem visibility_lockstep:
  "((\<forall>d \<in> set ds. fst d) \<and> distinct cells \<longrightarrow>
      dom (visibleCells (fst (Controller_run (Controller_new True cells, set cells) ds)))
        = snd (Controller_run (Controller_new True cells, set cells) ds)
      \<and> (deltasAddNew (set cells) ds \<longrightarrow>
           (\<forall>session h.
              liveSessions (fst (Controller_run (Controller_new True cells, set cells) ds))
                session = Some h
              \<longleftrightarrow> visibleCells (fst (Controller_run (Controller_new True cells, set cells) ds))
                    h = Some session)
           \<and> {h. \<exists>session.
                   liveSessions (fst (Controller_run (Controller_new True cells, set cells) ds))
                     session = Some h}
               = snd (Controller_run (Controller_new True cells, set cells) ds)
           \<and> (\<forall>h \<in> snd (Controller_run (Controller_new True cells, set cells) ds).
                 \<exists>!session.
                   liveSessions (fst (Controller_run (Controller_new True cells, set cells) ds))
                     session = Some h)))
   \<and> (h \<in> set (removed e) \<and> visibleCells c h = Some old \<and> old < created c \<longrightarrow>
        liveSessions (updateVisibleCells True e c) old = None)
   \<and> (h \<in> set (removed e) \<and> h \<notin> set (added e) \<longrightarrow>
        visibleCells (updateVisibleCells True e c) h = None)
   \<and> (h \<in> set (added e) \<longrightarrow>
        (\<exists>new. created c \<le> new
           \<and> visibleCells (updateVisibleCells True e c) h = Some new
           \<and> liveSessions (updateVisibleCells True e c) new = Some h))"
proof (intro conjI impI)
  let ?run = "Controller_run (Controller_new True cells, set cells) ds"
  assume live: "(\<forall>d \<in> set ds. fst d) \<and> distinct cells"
  then have start: "inLockstep (Controller_new True cells) (set cells)"
    by (simp add: Controller_new_lockstep)
  then have "dom (visibleCells (Controller_new True cells)) = set cells"
    by (simp add: inLockstep_def)
  then show "dom (visibleCells (fst ?run)) = snd ?run"
    using live by (intro Controller_run_dom) simp_all
  assume "deltasAddNew (set cells) ds"
  then have step: "inLockstep (fst ?run) (snd ?run)"
    using live start by (intro Controller_run_lockstep) simp_all
  then show "\<forall>session h. liveSessions (fst ?run) session = Some h
               \<longleftrightarrow> visibleCells (fst ?run) h = Some session"
    by (simp add: inLockstep_def)
  show "{h. \<exists>session. liveSessions (fst ?run) session = Some h} = snd ?run"
    using step by (rule inLockstep_sessions(1))
  show "\<forall>h \<in> snd ?run. \<exists>!session. liveSessions (fst ?run) session = Some h"
    using step by (rule inLockstep_sessions(2))
next
  assume old: "h \<in> set (removed e) \<and> visibleCells c h = Some old \<and> old < created c"
  then have "liveSessions (fold removeCell (removed e) c) old = None"
    by (intro fold_removeCell_disposed) blast
  moreover have "old < created (fold removeCell (removed e) c)"
    using old by (simp add: fold_removeCell_created)
  ultimately show "liveSessions (updateVisibleCells True e c) old = None"
    by (simp add: updateVisibleCells_def fold_addCell_old)
next
  assume "h \<in> set (removed e) \<and> h \<notin> set (added e)"
  moreover have "h \<notin> dom (visibleCells (fold removeCell (removed e) c))"
    if "h \<in> set (removed e)"
    using that by (simp add: dom_fold_removeCell)
  ultimately show "visibleCells (updateVisibleCells True e c) h = None"
    by (auto simp: updateVisibleCells_def fold_addCell_other)
next
  assume "h \<in> set (added e)"
  then obtain new where "created (fold removeCell (removed e) c) \<le> new"
    "visibleCells (fold addCell (added e) (fold removeCell (removed e) c)) h = Some new"
    "liveSessions (fold addCell (added e) (fold removeCell (removed e) c)) new = Some h"
    using fold_addCell_new [of h "added e" "fold removeCell (removed e) c"] by blast
  then show "\<exists>new. created c \<le> new
           \<and> visibleCells (updateVisibleCells True e c) h = Some new
           \<and> liveSessions (updateVisibleCells True e c) new = Some h"
    by (intro exI [of _ new]) (simp add: updateVisibleCells_def fold_removeCell_created)
qed

theorem visibility_lockstep_witness:
  "dom (visibleCells (fst (Controller_run (Controller_new True [1, 2], set [1, 2])
                             [(True, \<lparr>added = [3], removed = [1]\<rparr>),
                              (True, \<lparr>added = [1], removed = [2]\<rparr>)]))) = {1, 3}
   \<and> {h. \<exists>session. liveSessions (fst (Controller_run (Controller_new True [1, 2], set [1, 2])
                             [(True, \<lparr>added = [3], removed = [1]\<rparr>),
                              (True, \<lparr>added = [1], removed = [2]\<rparr>)])) session = Some h} = {1, 3}
   \<and> liveSessions (updateVisibleCells True \<lparr>added = [3], removed = [1]\<rparr> (Controller_new True [1, 2])) 0 = None
   \<and> visibleCells (updateVisibleCells True \<lparr>added = [3], removed = [1]\<rparr> (Controller_new True [1, 2])) 1 = None
   \<and> (\<exists>new. created (Controller_new True [1, 2]) \<le> new
          \<and> visibleCells (updateVisibleCells True \<lparr>added = [3], removed = [1]\<rparr> (Controller_new True [1, 2])) 3 = Some new
          \<and> liveSessions (updateVisibleCells True \<lparr>added = [3], removed = [1]\<rparr> (Controller_new True [1, 2])) new = Some 3)"
proof -
  have visible: "snd (Controller_run (Controller_new True [1, 2], set [1, 2])
                             [(True, \<lparr>added = [3], removed = [1]\<rparr>),
                              (True, \<lparr>added = [1], removed = [2]\<rparr>)]) = {1, 3}"
    by (auto simp: visibleAfter_def)
  have deltas: "deltasAddNew (set [1, 2])
                  [(True, \<lparr>added = [3], removed = [1]\<rparr>),
                   (True, \<lparr>added = [1], removed = [2]\<rparr>)]"
    by (auto simp: visibleAfter_def)
  have delivered: "(\<forall>d \<in> set [(True, \<lparr>added = [3], removed = [1]\<rparr>),
                              (True, \<lparr>added = [1], removed = [2]\<rparr>)]. fst d)
                   \<and> distinct [1, 2 :: nat]"
    by simp
  note run = visibility_lockstep
    [of "[(True, \<lparr>added = [3], removed = [1]\<rparr>), (True, \<lparr>added = [1], removed = [2]\<rparr>)]"
      "[1, 2]", THEN conjunct1, THEN mp, OF delivered]
  note sessions = run [THEN conjunct2, THEN mp, OF deltas]
  have in_map: "dom (visibleCells (fst (Controller_run (Controller_new True [1, 2], set [1, 2])
                             [(True, \<lparr>added = [3], removed = [1]\<rparr>),
                              (True, \<lparr>added = [1], removed = [2]\<rparr>)]))) = {1, 3}"
    using run [THEN conjunct1] unfolding visible .
  have live: "{h. \<exists>session. liveSessions (fst (Controller_run (Controller_new True [1, 2], set [1, 2])
                             [(True, \<lparr>added = [3], removed = [1]\<rparr>),
                              (True, \<lparr>added = [1], removed = [2]\<rparr>)])) session = Some h} = {1, 3}"
    using sessions [THEN conjunct2, THEN conjunct1] unfolding visible .
  have old: "1 \<in> set (removed \<lparr>added = [3], removed = [1 :: nat]\<rparr>)
             \<and> visibleCells (Controller_new True [1, 2]) 1 = Some 0
             \<and> 0 < created (Controller_new True [1, 2])"
    by (simp add: Controller_new_def updateEverything_def updateVisibleCells_def addCell_def)
  have disposed: "liveSessions (updateVisibleCells True \<lparr>added = [3], removed = [1]\<rparr> (Controller_new True [1, 2])) 0 = None"
    by (rule visibility_lockstep
          [THEN conjunct2, THEN conjunct1, THEN mp, OF old])
  have dropped: "visibleCells (updateVisibleCells True \<lparr>added = [3], removed = [1]\<rparr> (Controller_new True [1, 2])) 1 = None"
    by (rule visibility_lockstep
          [THEN conjunct2, THEN conjunct2, THEN conjunct1, THEN mp]) simp
  have constructed: "(\<exists>new. created (Controller_new True [1, 2]) \<le> new
          \<and> visibleCells (updateVisibleCells True \<lparr>added = [3], removed = [1]\<rparr> (Controller_new True [1, 2])) 3 = Some new
          \<and> liveSessions (updateVisibleCells True \<lparr>added = [3], removed = [1]\<rparr> (Controller_new True [1, 2])) new = Some 3)"
    by (rule visibility_lockstep
          [THEN conjunct2, THEN conjunct2, THEN conjunct2, THEN mp]) simp
  show ?thesis
    by (rule conjI [OF in_map conjI [OF live conjI [OF disposed conjI [OF dropped constructed]]]])
qed

end
